theory Spec2Isabelle
  imports Main "HOL-Library.Sublist"
begin

section \<open>Python strings and values used by debian\_iso\_customizer.py\<close>

text \<open>
  Strings are \<^typ>\<open>string\<close> (character lists). A text is carried by the bytes of its
  encoding, so that the content of a file and the text read from it are lists of the same
  kind; the script runs on a POSIX system (it calls \<^verbatim>\<open>lsblk\<close>, \<^verbatim>\<open>sudo\<close> and \<^verbatim>\<open>dd\<close>), where
  writing in text mode leaves line feeds as they are. A line feed, a single quote and a
  double quote are written out as characters, since the string literals of the logic
  cannot hold them.
\<close>

abbreviation NL :: string where "NL \<equiv> [CHR 0x0A]"
abbreviation SQ :: string where "SQ \<equiv> [CHR 0x27]"
abbreviation DQ :: string where "DQ \<equiv> [CHR 0x22]"

text \<open>
  \<^verbatim>\<open>str.isspace\<close> on the characters below 128: tab, line feed, vertical tab, form feed,
  carriage return, the four separators 0x1C..0x1F and the blank.
\<close>

definition py_isspace :: "char \<Rightarrow> bool" where
  "py_isspace c = (c \<in> set [CHR 0x09, CHR 0x0A, CHR 0x0B, CHR 0x0C, CHR 0x0D,
                             CHR 0x1C, CHR 0x1D, CHR 0x1E, CHR 0x1F, CHR 0x20])"

text \<open>\<^verbatim>\<open>s.strip()\<close>: whitespace removed at both ends.\<close>

definition py_strip :: "string \<Rightarrow> string" where
  "py_strip s = rev (dropWhile py_isspace (rev (dropWhile py_isspace s)))"

text \<open>\<^verbatim>\<open>sep.join(xs)\<close>.\<close>

fun py_join :: "string \<Rightarrow> string list \<Rightarrow> string" where
  "py_join sep [] = []"
| "py_join sep [x] = x"
| "py_join sep (x # y # ys) = x @ sep @ py_join sep (y # ys)"

text \<open>
  What reading in text mode does to line ends (universal newlines): a carriage return
  followed by a line feed, and a carriage return alone, each become one line feed.
\<close>

abbreviation CR :: char where "CR \<equiv> CHR 0x0D"
abbreviation LF :: char where "LF \<equiv> CHR 0x0A"

fun universal_newlines :: "string \<Rightarrow> string" where
  "universal_newlines [] = []"
| "universal_newlines [c] = (if c = CR then [LF] else [c])"
| "universal_newlines (c # d # cs) =
     (if c = CR \<and> d = LF then LF # universal_newlines cs
      else if c = CR then LF # universal_newlines (d # cs)
      else c # universal_newlines (d # cs))"

text \<open>
  \<^verbatim>\<open>os.path.join\<close> of posixpath: a component that starts with a slash restarts the path,
  a slash is inserted unless the path so far is empty or ends with one.
\<close>

definition path_join2 :: "string \<Rightarrow> string \<Rightarrow> string" where
  "path_join2 path b =
     (if b \<noteq> [] \<and> hd b = CHR ''/'' then b
      else if path = [] \<or> last path = CHR ''/'' then path @ b
      else path @ ''/'' @ b)"

definition os_path_join :: "string \<Rightarrow> string list \<Rightarrow> string" where
  "os_path_join a p = foldl path_join2 a p"

section \<open>Constants and configuration\<close>

definition SOURCE_ISO_PATH :: string where
  "SOURCE_ISO_PATH = ''debian-13.0.0-amd64-netinst.iso''"

definition WORKSPACE_DIR :: string where
  "WORKSPACE_DIR = ''iso-extract''"

definition CUSTOM_ISO_NAME :: string where
  "CUSTOM_ISO_NAME = ''custom-debian-13.iso''"

definition PRESEED_FILENAME :: string where
  "PRESEED_FILENAME = ''preseed.cfg''"

definition POST_INSTALL_CONFIG :: string where
  "POST_INSTALL_CONFIG = ''post_install_config.json''"

section \<open>The world the script runs in\<close>

text \<open>
  The exceptions that the script raises itself or lets through: \<^verbatim>\<open>typer.Exit(code)\<close>
  (\<^verbatim>\<open>typer.Exit()\<close> has code 0), \<^verbatim>\<open>typer.Abort\<close> when the terminal has no answer left,
  and the built-in exceptions of the calls it makes.
\<close>

datatype error =
    Exit int
  | Abort
  | FileNotFoundError string
  | CalledProcessError "string list" int
  | JSONDecodeError
  | UnicodeDecodeError
  | RecursionError
  | ValueError
  | AttributeError
  | TypeError
  | KeyError string

text \<open>
  What an observer sees of a run, in order: every \<^verbatim>\<open>console.print\<close>, every
  \<^verbatim>\<open>subprocess.run\<close> with its argument list, every \<^verbatim>\<open>typer.confirm\<close> with its question and
  the answer given, every \<^verbatim>\<open>typer.prompt\<close> with the text typed, \<^verbatim>\<open>os.makedirs\<close> and
  \<^verbatim>\<open>os.chmod\<close>. The spinners (\<^verbatim>\<open>console.status\<close>, \<^verbatim>\<open>Progress\<close>) only draw and are left out.
\<close>

datatype event =
    Printed string
  | Ran "string list"
  | Confirmed string bool
  | Prompted string string
  | Makedirs string
  | Chmod string nat

text \<open>
  The state: the text files by path, the answers the operator will give to the coming
  \<^verbatim>\<open>typer.confirm\<close> calls, the lines the operator will type at the coming \<^verbatim>\<open>typer.prompt\<close>
  calls, and the events so far.
\<close>

record world =
  files :: "string \<rightharpoonup> string"
  answers :: "bool list"
  typed :: "string list"
  log :: "event list"

type_synonym 'a action = "world \<Rightarrow> (error + 'a) \<times> world"

definition succeed :: "'a \<Rightarrow> 'a action" where
  "succeed x = (\<lambda>w. (Inr x, w))"

definition raise :: "error \<Rightarrow> 'a action" where
  "raise e = (\<lambda>w. (Inl e, w))"

text \<open>Sequencing: an exception of the first action skips the rest.\<close>

definition and_then :: "'a action \<Rightarrow> ('a \<Rightarrow> 'b action) \<Rightarrow> 'b action" where
  "and_then m f = (\<lambda>w. case m w of (Inl e, w') \<Rightarrow> (Inl e, w') | (Inr x, w') \<Rightarrow> f x w')"

definition emit :: "event \<Rightarrow> unit action" where
  "emit ev = (\<lambda>w. (Inr (), w\<lparr>log := log w @ [ev]\<rparr>))"

definition console_print :: "string \<Rightarrow> unit action" where
  "console_print s = emit (Printed s)"

text \<open>
  \<^verbatim>\<open>open(path, "w").write(text)\<close>: the file is created or replaced, and holds the bytes
  that carry the text. The directories written to exist by then (the workspace is made by
  \<^verbatim>\<open>os.makedirs\<close>, the boot configurations have just been read from theirs), so the write
  itself does not fail in this model.
\<close>

definition write_file :: "string \<Rightarrow> string \<Rightarrow> unit action" where
  "write_file path text = (\<lambda>w. (Inr (), w\<lparr>files := (files w)(path \<mapsto> text)\<rparr>))"

section \<open>The texts of \_update\_bootloader\_configs\<close>

definition isolinux_cfg_path :: string where
  "isolinux_cfg_path = os_path_join WORKSPACE_DIR [''isolinux'', ''isolinux.cfg'']"

definition grub_cfg_path :: string where
  "grub_cfg_path = os_path_join WORKSPACE_DIR [''boot'', ''grub'', ''grub.cfg'']"

definition isolinux_autoinstall_config :: string where
  "isolinux_autoinstall_config = py_strip (
     NL @ ''DEFAULT autoinstall'' @
     NL @ ''LABEL autoinstall'' @
     NL @ ''    MENU LABEL Automated Install'' @
     NL @ ''    KERNEL /install.amd/vmlinuz'' @
     NL @ ''    APPEND initrd=/install.amd/initrd.gz --- quiet auto=true priority=critical preseed/file=/cdrom/preseed.cfg'' @
     NL @ ''    '')"

definition modified_isolinux_content :: "string \<Rightarrow> string" where
  "modified_isolinux_content original_isolinux_content =
     ''TIMEOUT 10'' @ NL @ isolinux_autoinstall_config @ NL @ original_isolinux_content"

definition grub_autoinstall_entry :: string where
  "grub_autoinstall_entry = py_strip (
     NL @ ''menuentry '' @ SQ @ ''Automated Unattended Install'' @ SQ @ '' --class auto {'' @
     NL @ ''    linux    /install.amd/vmlinuz --- quiet auto=true priority=critical preseed/file=/cdrom/preseed.cfg'' @
     NL @ ''    initrd   /install.amd/initrd.gz'' @
     NL @ ''}'' @
     NL @ ''    '')"

definition modified_grub_content :: "string \<Rightarrow> string" where
  "modified_grub_content original_grub_content =
     ''set timeout=1'' @ NL @ ''set default='' @ DQ @ ''0'' @ DQ @ NL @ NL @
     grub_autoinstall_entry @ NL @ NL @ original_grub_content"

section \<open>JSON values as Python loads them\<close>

text \<open>
  What \<^verbatim>\<open>json.load\<close> returns: \<^verbatim>\<open>None\<close>, a bool, an int, a float, a str, a list or a dict.
  A float is carried by its Python \<^verbatim>\<open>repr\<close> (such as \<^verbatim>\<open>1.5\<close> or \<^verbatim>\<open>inf\<close>), the only thing
  the script can observe of it. A dict is the list of its entries in insertion order;
  the keys of a loaded dict are distinct.
\<close>

datatype json =
    JNull
  | JBool bool
  | JInt int
  | JFloat string
  | JStr string
  | JArr "json list"
  | JObj "(string \<times> json) list"

text \<open>
  \<^verbatim>\<open>x.get(key, default)\<close>: only a dict has the method; on any other loaded value the
  attribute lookup raises.
\<close>

fun py_get :: "json \<Rightarrow> string \<Rightarrow> json \<Rightarrow> error + json" where
  "py_get (JObj kv) key dflt = Inr (case map_of kv key of None \<Rightarrow> dflt | Some v \<Rightarrow> v)"
| "py_get _ key dflt = Inl AttributeError"

text \<open>\<^verbatim>\<open>d[key]\<close> on a dict.\<close>

definition py_item :: "(string \<times> json) list \<Rightarrow> string \<Rightarrow> error + json" where
  "py_item kv key = (case map_of kv key of None \<Rightarrow> Inl (KeyError key) | Some v \<Rightarrow> Inr v)"

text \<open>
  The items that iterating over a loaded value yields: the elements of a list, the
  keys of a dict, the characters of a str; the other values are not iterable.
\<close>

fun py_iter :: "json \<Rightarrow> error + json list" where
  "py_iter (JArr xs) = Inr xs"
| "py_iter (JObj kv) = Inr (map (\<lambda>(k, v). JStr k) kv)"
| "py_iter (JStr s) = Inr (map (\<lambda>c. JStr [c]) s)"
| "py_iter _ = Inl TypeError"

text \<open>\<^verbatim>\<open>" ".join(x)\<close> needs an iterable whose items are all str.\<close>

fun str_items :: "json list \<Rightarrow> error + string list" where
  "str_items [] = Inr []"
| "str_items (JStr s # xs) = (case str_items xs of Inl e \<Rightarrow> Inl e | Inr ss \<Rightarrow> Inr (s # ss))"
| "str_items (_ # xs) = Inl TypeError"

definition join_blank :: "json \<Rightarrow> error + string" where
  "join_blank x = (case py_iter x of Inl e \<Rightarrow> Inl e
                   | Inr items \<Rightarrow> (case str_items items of Inl e \<Rightarrow> Inl e
                                   | Inr ss \<Rightarrow> Inr (py_join '' '' ss)))"

text \<open>Decimal digits of a natural number and of an integer, as \<^verbatim>\<open>str\<close> prints them.\<close>

fun dec_nat :: "nat \<Rightarrow> string" where
  "dec_nat n = (if n < 10 then [''0123456789'' ! n]
                else dec_nat (n div 10) @ [''0123456789'' ! (n mod 10)])"

definition dec_int :: "int \<Rightarrow> string" where
  "dec_int i = (if i < 0 then ''-'' @ dec_nat (nat (- i)) else dec_nat (nat i))"

text \<open>
  What an f-string puts in for \<^verbatim>\<open>{x}\<close>, that is \<^verbatim>\<open>str(x)\<close>. For a list or a dict this is
  Python's \<^verbatim>\<open>repr\<close> of the container, taken from the interpreter (\<open>container_repr\<close>).
\<close>

fun py_str :: "(json \<Rightarrow> string) \<Rightarrow> json \<Rightarrow> string" where
  "py_str container_repr JNull = ''None''"
| "py_str container_repr (JBool b) = (if b then ''True'' else ''False'')"
| "py_str container_repr (JInt i) = dec_int i"
| "py_str container_repr (JFloat r) = r"
| "py_str container_repr (JStr s) = s"
| "py_str container_repr v = container_repr v"

section \<open>The host: tools and interpreter services outside the script\<close>

text \<open>
  What a \<^verbatim>\<open>subprocess.run\<close> meets: the program is not on the PATH, or it runs and completes
  with a return code, the bytes of its standard output and of its standard error, and the
  files as it leaves them.
\<close>

datatype completed =
    Not_found
  | Completed int string string "string \<rightharpoonup> string"

record host =
  which :: "string \<Rightarrow> bool"
  run :: "string list \<Rightarrow> (string \<rightharpoonup> string) \<Rightarrow> completed"
  decodable :: "string \<Rightarrow> bool"
  json_loads :: "string \<Rightarrow> error + json"
  container_repr :: "json \<Rightarrow> string"

text \<open>
  \<open>which h name\<close> says whether \<^verbatim>\<open>shutil.which(name)\<close> finds the program; \<open>run h cmd fs\<close>
  is the outcome of the command on the files \<open>fs\<close>; \<open>decodable h bytes\<close> says whether the
  bytes decode in the encoding of the locale, which is what text mode uses; \<open>json_loads h
  text\<close> is the value \<^verbatim>\<open>json.loads\<close> returns or the exception it raises (\<^verbatim>\<open>JSONDecodeError\<close> on
  text that is not JSON, \<^verbatim>\<open>RecursionError\<close> on text nested too deep, \<^verbatim>\<open>ValueError\<close> on an
  integer literal with too many digits).

  A pure computation that may raise, run as an action.
\<close>

definition lift :: "error + 'a \<Rightarrow> 'a action" where
  "lift r = (case r of Inl e \<Rightarrow> raise e | Inr x \<Rightarrow> succeed x)"

text \<open>
  \<^verbatim>\<open>subprocess.run(cmd, check=True, ...)\<close> without \<^verbatim>\<open>text=True\<close>: every call of the script
  checks the return code, and the captured output stays bytes. The result is the standard
  output.
\<close>

definition subprocess_run :: "host \<Rightarrow> string list \<Rightarrow> string action" where
  "subprocess_run h cmd = (\<lambda>w.
     let w1 = w\<lparr>log := log w @ [Ran cmd]\<rparr> in
     case run h cmd (files w) of
       Not_found \<Rightarrow> (Inl (FileNotFoundError (case cmd of [] \<Rightarrow> [] | prog # _ \<Rightarrow> prog)), w1)
     | Completed returncode out err fs \<Rightarrow>
         if returncode \<noteq> 0 then (Inl (CalledProcessError cmd returncode), w1\<lparr>files := fs\<rparr>)
         else (Inr out, w1\<lparr>files := fs\<rparr>))"

text \<open>
  \<^verbatim>\<open>subprocess.run(cmd, check=True, capture_output=True, text=True)\<close>: both captured
  streams are decoded, with universal newlines, when the process has ended and before the
  return code is checked; bytes that do not decode raise \<^verbatim>\<open>UnicodeDecodeError\<close>.
\<close>

definition subprocess_run_text :: "host \<Rightarrow> string list \<Rightarrow> string action" where
  "subprocess_run_text h cmd = (\<lambda>w.
     let w1 = w\<lparr>log := log w @ [Ran cmd]\<rparr> in
     case run h cmd (files w) of
       Not_found \<Rightarrow> (Inl (FileNotFoundError (case cmd of [] \<Rightarrow> [] | prog # _ \<Rightarrow> prog)), w1)
     | Completed returncode out err fs \<Rightarrow>
         if \<not> decodable h out \<or> \<not> decodable h err
         then (Inl UnicodeDecodeError, w1\<lparr>files := fs\<rparr>)
         else if returncode \<noteq> 0
         then (Inl (CalledProcessError cmd returncode), w1\<lparr>files := fs\<rparr>)
         else (Inr (universal_newlines out), w1\<lparr>files := fs\<rparr>))"

definition json_load :: "host \<Rightarrow> string \<Rightarrow> json action" where
  "json_load h text = lift (json_loads h text)"

text \<open>
  \<^verbatim>\<open>open(path, "r").read()\<close>: a missing file raises, bytes that do not decode raise, and
  the text comes with universal newlines.
\<close>

definition read_file :: "host \<Rightarrow> string \<Rightarrow> string action" where
  "read_file h path = (\<lambda>w.
     case files w path of
       None \<Rightarrow> (Inl (FileNotFoundError path), w)
     | Some bytes \<Rightarrow>
         if decodable h bytes then (Inr (universal_newlines bytes), w)
         else (Inl UnicodeDecodeError, w))"

section \<open>\_update\_bootloader\_configs\<close>

definition update_bootloader_configs :: "host \<Rightarrow> unit action" where
  "update_bootloader_configs h =
     and_then (read_file h isolinux_cfg_path) (\<lambda>original_isolinux_content.
     and_then (write_file isolinux_cfg_path (modified_isolinux_content original_isolinux_content)) (\<lambda>_.
     and_then (read_file h grub_cfg_path) (\<lambda>original_grub_content.
     write_file grub_cfg_path (modified_grub_content original_grub_content))))"

section \<open>\_verify\_prerequisites, \_extract\_iso, \_create\_preseed\_config\<close>

definition verify_prerequisites :: "host \<Rightarrow> unit action" where
  "verify_prerequisites h =
     (if \<not> which h ''xorriso'' then
        and_then (console_print ''[bold red]Error:[/bold red] `xorriso` is not installed or not in the system PATH.'') (\<lambda>_.
        and_then (console_print ''Please install it using: [cyan]sudo apt-get install -y xorriso[/cyan]'') (\<lambda>_.
        raise (Exit 1)))
      else succeed ())"

definition extract_command :: "string list" where
  "extract_command = [''xorriso'', ''-osirrox'', ''on'', ''-indev'', SOURCE_ISO_PATH,
                      ''-extract'', ''/'', WORKSPACE_DIR]"

definition extract_iso :: "host \<Rightarrow> unit action" where
  "extract_iso h =
     and_then (emit (Makedirs WORKSPACE_DIR)) (\<lambda>_.
     and_then (subprocess_run h extract_command) (\<lambda>_. succeed ()))"

text \<open>\<^verbatim>\<open>shutil.copy\<close> of a file that exists: the destination gets its content.\<close>

definition create_preseed_config :: "unit action" where
  "create_preseed_config = (\<lambda>w.
     let source_preseed_path = PRESEED_FILENAME;
         dest_preseed_path = os_path_join WORKSPACE_DIR [PRESEED_FILENAME]
     in case files w source_preseed_path of
          None \<Rightarrow>
            and_then (console_print (''[bold red]Error:[/bold red] Preseed file not found at [yellow]'' @
                        SQ @ source_preseed_path @ SQ @ ''[/yellow].'')) (\<lambda>_.
            raise (Exit 1)) w
        | Some text \<Rightarrow> write_file dest_preseed_path text w)"

section \<open>\_generate\_post\_install\_script\<close>

definition install_line :: "string \<Rightarrow> string" where
  "install_line packages = ''apt-get install -y --no-install-recommends '' @ packages"

definition keygen_line :: "string \<Rightarrow> string \<Rightarrow> string" where
  "keygen_line ssh_user ssh_key_type =
     ''sudo -u '' @ ssh_user @ '' ssh-keygen -t '' @ ssh_key_type @
     '' -f /home/'' @ ssh_user @ ''/.ssh/id_rsa -N '' @ DQ @ DQ"

text \<open>The f-string of the script, with its three holes.\<close>

definition script_content :: "string \<Rightarrow> string \<Rightarrow> string \<Rightarrow> string" where
  "script_content packages ssh_user ssh_key_type =
     ''#!/bin/bash'' @ NL @
     ''set -e'' @ NL @
     NL @
     ''# --- Install packages ---'' @ NL @
     ''apt-get update'' @ NL @
     install_line packages @ NL @
     NL @
     ''# --- Generate SSH key ---'' @ NL @
     keygen_line ssh_user ssh_key_type @ NL @
     NL @
     ''# --- Clean up ---'' @ NL @
     ''apt-get clean'' @ NL @
     ''rm -rf /var/lib/apt/lists/*'' @ NL @
     NL @
     ''echo '' @ DQ @ ''Post-installation setup complete.'' @ DQ @ NL"

text \<open>
  Lines 133 to 153 of the source: from the loaded configuration to the text of the
  script, with the exceptions of \<^verbatim>\<open>.get\<close> and \<^verbatim>\<open>join\<close> in the order the source meets them.
\<close>

definition render_script :: "(json \<Rightarrow> string) \<Rightarrow> json \<Rightarrow> error + string" where
  "render_script crepr config =
     (case py_get config ''packages'' (JArr []) of Inl e \<Rightarrow> Inl e | Inr pk \<Rightarrow>
      case join_blank pk of Inl e \<Rightarrow> Inl e | Inr packages \<Rightarrow>
      case py_get config ''ssh_key'' (JObj []) of Inl e \<Rightarrow> Inl e | Inr ssh_key_config \<Rightarrow>
      case py_get ssh_key_config ''type'' (JStr ''ed25519'') of Inl e \<Rightarrow> Inl e | Inr ssh_key_type \<Rightarrow>
      case py_get ssh_key_config ''user'' (JStr ''user'') of Inl e \<Rightarrow> Inl e | Inr ssh_user \<Rightarrow>
        Inr (script_content packages (py_str crepr ssh_user) (py_str crepr ssh_key_type)))"

definition script_path :: string where
  "script_path = os_path_join WORKSPACE_DIR [''post_install_setup.sh'']"

text \<open>The mode \<^verbatim>\<open>0o755\<close>.\<close>

definition mode_755 :: nat where
  "mode_755 = 7 * 8 * 8 + 5 * 8 + 5"

definition generate_post_install_script :: "host \<Rightarrow> unit action" where
  "generate_post_install_script h = (\<lambda>w.
     case files w POST_INSTALL_CONFIG of
       None \<Rightarrow>
         and_then (console_print (''[bold red]Error:[/bold red] Post-install config not found at [yellow]'' @
                     SQ @ POST_INSTALL_CONFIG @ SQ @ ''[/yellow].'')) (\<lambda>_.
         raise (Exit 1)) w
     | Some bytes \<Rightarrow>
         and_then (read_file h POST_INSTALL_CONFIG) (\<lambda>text.
         and_then (json_load h text) (\<lambda>config.
         and_then (lift (render_script (container_repr h) config)) (\<lambda>content.
         and_then (write_file script_path content) (\<lambda>_.
         emit (Chmod script_path mode_755))))) w)"





section \<open>\_find\_usb\_drives\<close>

text \<open>The dict \<^verbatim>\<open>{"name": ..., "size": ...}\<close> built for each drive found.\<close>

record usb_drive =
  drive_name :: string
  drive_size :: json

definition lsblk_command :: "string list" where
  "lsblk_command = [''lsblk'', ''-J'', ''-o'', ''NAME,SIZE,TYPE,TRAN'']"

text \<open>\<^verbatim>\<open>x[key]\<close> with a str key: the entry of a dict; no other loaded value takes it.\<close>

fun py_subscript :: "json \<Rightarrow> string \<Rightarrow> error + json" where
  "py_subscript (JObj kv) key = py_item kv key"
| "py_subscript _ key = Inl TypeError"

text \<open>
  The list comprehension over the devices, in order; the first exception ends it. The
  test is \<^verbatim>\<open>dev.get("tran") == "usb" and dev.get("type") == "disk"\<close>.
\<close>

fun usb_drives_of :: "(json \<Rightarrow> string) \<Rightarrow> json list \<Rightarrow> error + usb_drive list" where
  "usb_drives_of crepr [] = Inr []"
| "usb_drives_of crepr (dev # devs) =
     (case py_get dev ''tran'' JNull of Inl e \<Rightarrow> Inl e | Inr tran \<Rightarrow>
      if tran \<noteq> JStr ''usb'' then usb_drives_of crepr devs
      else
      case py_get dev ''type'' JNull of Inl e \<Rightarrow> Inl e | Inr kind \<Rightarrow>
      if kind \<noteq> JStr ''disk'' then usb_drives_of crepr devs
      else
      case py_subscript dev ''name'' of Inl e \<Rightarrow> Inl e | Inr name \<Rightarrow>
      case py_subscript dev ''size'' of Inl e \<Rightarrow> Inl e | Inr sz \<Rightarrow>
      case usb_drives_of crepr devs of Inl e \<Rightarrow> Inl e | Inr drives \<Rightarrow>
        Inr (\<lparr>drive_name = ''/dev/'' @ py_str crepr name, drive_size = sz\<rparr> # drives))"

text \<open>The body of the \<^verbatim>\<open>try\<close>.\<close>

definition find_usb_drives_try :: "host \<Rightarrow> usb_drive list action" where
  "find_usb_drives_try h =
     and_then (subprocess_run_text h lsblk_command) (\<lambda>stdout.
     and_then (json_load h stdout) (\<lambda>loaded.
     and_then (lift (py_get loaded ''blockdevices'' (JArr []))) (\<lambda>devices.
     and_then (lift (py_iter devices)) (\<lambda>devs.
     lift (usb_drives_of (container_repr h) devs)))))"

text \<open>\<^verbatim>\<open>except (FileNotFoundError, json.JSONDecodeError, subprocess.CalledProcessError)\<close>.\<close>

fun enumeration_failure :: "error \<Rightarrow> bool" where
  "enumeration_failure (FileNotFoundError _) = True"
| "enumeration_failure JSONDecodeError = True"
| "enumeration_failure (CalledProcessError _ _) = True"
| "enumeration_failure _ = False"

definition find_usb_drives :: "host \<Rightarrow> usb_drive list action" where
  "find_usb_drives h = (\<lambda>w.
     case find_usb_drives_try h w of
       (Inl e, w') \<Rightarrow> if enumeration_failure e then (Inr [], w') else (Inl e, w')
     | (Inr usb_drives, w') \<Rightarrow> (Inr usb_drives, w'))"

text \<open>
  The specification's words for the locator: a device counts when its transport is USB
  and its class is a whole disk, and its descriptor is the device path with the reported
  size.
\<close>

fun spec_usb_whole_disk :: "json \<Rightarrow> bool" where
  "spec_usb_whole_disk (JObj kv) =
     (map_of kv ''tran'' = Some (JStr ''usb'') \<and> map_of kv ''type'' = Some (JStr ''disk''))"
| "spec_usb_whole_disk _ = False"

fun spec_descriptor :: "(json \<Rightarrow> string) \<Rightarrow> json \<Rightarrow> usb_drive option" where
  "spec_descriptor crepr (JObj kv) =
     (case (map_of kv ''name'', map_of kv ''size'') of
        (Some name, Some sz) \<Rightarrow>
          Some \<lparr>drive_name = ''/dev/'' @ py_str crepr name, drive_size = sz\<rparr>
      | _ \<Rightarrow> None)"
| "spec_descriptor crepr _ = None"

section \<open>\_rebuild\_iso\<close>

definition rebuild_command :: "string list" where
  "rebuild_command =
     [''xorriso'', ''-as'', ''mkisofs'',
      ''-isohybrid-mbr'', ''/usr/lib/ISOLINUX/isohdpfx.bin'',
      ''-c'', ''isolinux/boot.cat'',
      ''-b'', ''isolinux/isolinux.bin'',
      ''-no-emul-boot'', ''-boot-load-size'', ''4'', ''-boot-info-table'',
      ''-eltorito-alt-boot'',
      ''-e'', ''boot/grub/efi.img'',
      ''-no-emul-boot'',
      ''-isohybrid-gpt-basdat'',
      ''-o'', CUSTOM_ISO_NAME,
      WORKSPACE_DIR]"

definition rebuild_iso :: "host \<Rightarrow> unit action" where
  "rebuild_iso h = and_then (subprocess_run h rebuild_command) (\<lambda>_. succeed ())"

section \<open>The terminal\<close>

text \<open>
  \<^verbatim>\<open>typer.confirm(question)\<close> returns the operator's yes or no (what the call returns in
  the end, after any re-asking and with its default taken for an empty reply);
  \<^verbatim>\<open>typer.prompt(question)\<close> returns the text typed. When the operator has nothing more to
  say (end of input) both raise \<^verbatim>\<open>Abort\<close>.
\<close>

definition typer_confirm :: "string \<Rightarrow> bool action" where
  "typer_confirm question = (\<lambda>w.
     case answers w of
       [] \<Rightarrow> (Inl Abort, w)
     | answer # rest \<Rightarrow>
         (Inr answer, w\<lparr>answers := rest, log := log w @ [Confirmed question answer]\<rparr>))"

definition typer_prompt :: "string \<Rightarrow> string action" where
  "typer_prompt question = (\<lambda>w.
     case typed w of
       [] \<Rightarrow> (Inl Abort, w)
     | line # rest \<Rightarrow>
         (Inr line, w\<lparr>typed := rest, log := log w @ [Prompted question line]\<rparr>))"

text \<open>
  \<^verbatim>\<open>int(text)\<close> on ASCII text: whitespace around, an optional sign, then decimal digits
  that single underscores may separate. \<open>None\<close> stands for \<^verbatim>\<open>ValueError\<close>.
\<close>

definition is_digit :: "char \<Rightarrow> bool" where
  "is_digit c = (48 \<le> (of_char c :: nat) \<and> (of_char c :: nat) \<le> 57)"

definition digit_value :: "char \<Rightarrow> nat" where
  "digit_value c = of_char c - 48"

fun parse_digits :: "nat \<Rightarrow> string \<Rightarrow> nat option" where
  "parse_digits acc [] = Some acc"
| "parse_digits acc [c] = (if is_digit c then Some (acc * 10 + digit_value c) else None)"
| "parse_digits acc (c # d # cs) =
     (if is_digit c then parse_digits (acc * 10 + digit_value c) (d # cs)
      else if c = CHR ''_'' \<and> is_digit d then parse_digits acc (d # cs)
      else None)"

definition parse_nat :: "string \<Rightarrow> nat option" where
  "parse_nat s = (case s of [] \<Rightarrow> None
                  | c # cs \<Rightarrow> if is_digit c then parse_digits 0 (c # cs) else None)"

definition py_int :: "string \<Rightarrow> int option" where
  "py_int text =
     (case py_strip text of
        [] \<Rightarrow> None
      | c # cs \<Rightarrow>
          if c = CHR ''-'' then map_option (\<lambda>n. - int n) (parse_nat cs)
          else if c = CHR ''+'' then map_option int (parse_nat cs)
          else map_option int (parse_nat (c # cs)))"

section \<open>\_flash\_usb\_drive\<close>

definition umount_command :: "string \<Rightarrow> string list" where
  "umount_command device = [''sudo'', ''umount'', device @ ''*'']"

definition dd_command :: "string \<Rightarrow> string list" where
  "dd_command device =
     [''sudo'', ''dd'', ''if='' @ CUSTOM_ISO_NAME, ''of='' @ device, ''bs=4M'', ''status=progress'']"

definition eject_command :: "string \<Rightarrow> string list" where
  "eject_command device = [''sudo'', ''eject'', device]"

definition sure_question :: string where
  "sure_question = ''Are you absolutely sure you want to continue?''"

text \<open>\<^verbatim>\<open>try: ... except subprocess.CalledProcessError: pass\<close> around the unmount.\<close>

definition ignoring_called_process_error :: "'a action \<Rightarrow> unit action" where
  "ignoring_called_process_error m = (\<lambda>w.
     case m w of
       (Inl (CalledProcessError cmd returncode), w') \<Rightarrow> (Inr (), w')
     | (Inl e, w') \<Rightarrow> (Inl e, w')
     | (Inr _, w') \<Rightarrow> (Inr (), w'))"

definition flash_usb_drive :: "host \<Rightarrow> string \<Rightarrow> bool \<Rightarrow> unit action" where
  "flash_usb_drive h device force =
     and_then (console_print (''[bold yellow]Preparing to flash '' @ CUSTOM_ISO_NAME @ '' to '' @
                 device @ ''...[/bold yellow]'')) (\<lambda>_.
     and_then (ignoring_called_process_error (subprocess_run h (umount_command device))) (\<lambda>_.
     and_then (console_print (''[bold red]WARNING: This will destroy all data on '' @ device @
                 ''.[/bold red]'')) (\<lambda>_.
     and_then (if \<not> force
               then and_then (typer_confirm sure_question) (\<lambda>answer. succeed (\<not> answer))
               else succeed False) (\<lambda>declined.
     if declined then
       and_then (console_print ''[yellow]Operation cancelled.[/yellow]'') (\<lambda>_. raise (Exit 0))
     else
       and_then (subprocess_run h (dd_command device)) (\<lambda>_.
       and_then (console_print (''[bold green]Successfully flashed '' @ CUSTOM_ISO_NAME @ '' to '' @
                   device @ ''.[/bold green]'')) (\<lambda>_.
       and_then (console_print (''[bold yellow]Ejecting '' @ device @ ''...[/bold yellow]'')) (\<lambda>_.
       and_then (subprocess_run h (eject_command device)) (\<lambda>_.
       console_print (''[bold green]Successfully ejected '' @ device @ ''.[/bold green]'')))))))))"

section \<open>create\<close>

text \<open>The \<^verbatim>\<open>for i, drive in enumerate(usb_drives)\<close> loop that lists the drives.\<close>

fun print_drives :: "(json \<Rightarrow> string) \<Rightarrow> nat \<Rightarrow> usb_drive list \<Rightarrow> unit action" where
  "print_drives crepr i [] = succeed ()"
| "print_drives crepr i (drive # drives) =
     and_then (console_print (''  [bold]'' @ dec_nat (i + 1) @ ''[/bold]: '' @ drive_name drive @
                 '' ('' @ py_str crepr (drive_size drive) @ '')'')) (\<lambda>_.
     print_drives crepr (i + 1) drives)"

text \<open>
  Lines 288 to 313 of \<^verbatim>\<open>create\<close>: what is done with the drives found. With exactly one
  drive the operator is asked once and the flash is called with \<^verbatim>\<open>force=True\<close>; with
  several the operator is asked, picks a number, and the flash is called without
  \<^verbatim>\<open>force\<close>.
\<close>

definition offer_flash :: "host \<Rightarrow> usb_drive list \<Rightarrow> unit action" where
  "offer_flash h usb_drives =
     (if usb_drives \<noteq> [] then
        (if length usb_drives = 1 then
           (let selected_drive = drive_name (usb_drives ! 0) in
            and_then (console_print (NL @ ''[bold cyan]Detected single USB Drive:[/bold cyan] '' @
                        selected_drive @ '' ('' @
                        py_str (container_repr h) (drive_size (usb_drives ! 0)) @ '')'')) (\<lambda>_.
            and_then (typer_confirm (''Do you want to flash the ISO to '' @ selected_drive @ ''?'')) (\<lambda>yes.
            if yes then
              and_then (flash_usb_drive h selected_drive True) (\<lambda>_.
              console_print (NL @ ''[bold green]SUCCESS: ISO successfully flashed to '' @
                             selected_drive @ ''.[/bold green]''))
            else console_print ''[yellow]Flashing cancelled by user.[/yellow]'')))
         else
           and_then (console_print (NL @ ''[bold cyan]Available USB Drives Detected:[/bold cyan]'')) (\<lambda>_.
           and_then (print_drives (container_repr h) 0 usb_drives) (\<lambda>_.
           and_then (typer_confirm (NL @ ''Do you want to flash the ISO to a USB drive?'')) (\<lambda>yes.
           if yes then
             and_then (typer_prompt ''Enter the number of the drive to flash'') (\<lambda>choice.
             case py_int choice of
               None \<Rightarrow> console_print ''[bold red]Invalid input. Please enter a number.[/bold red]''
             | Some number \<Rightarrow>
                 (let drive_index = number - 1 in
                  if 0 \<le> drive_index \<and> drive_index < int (length usb_drives) then
                    (let selected_drive = drive_name (usb_drives ! nat drive_index) in
                     and_then (flash_usb_drive h selected_drive False) (\<lambda>_.
                     console_print (NL @ ''[bold green]SUCCESS: ISO successfully flashed to '' @
                                    selected_drive @ ''.[/bold green]'')))
                  else console_print ''[bold red]Invalid selection.[/bold red]''))
           else succeed ()))))
      else succeed ())"

definition create :: "host \<Rightarrow> unit action" where
  "create h =
     and_then (console_print ''[bold cyan]Starting Debian ISO Customization Process[/bold cyan]'') (\<lambda>_.
     and_then (console_print ''[bold cyan]Starting Debian ISO Customization Process[/bold cyan]'') (\<lambda>_.
     and_then (verify_prerequisites h) (\<lambda>_.
     and_then (console_print ''SUCCESS: Prerequisites verified.'') (\<lambda>_.
     and_then (extract_iso h) (\<lambda>_.
     and_then (console_print (''SUCCESS: Source ISO extracted to [yellow]'' @ SQ @ WORKSPACE_DIR @
                 ''/'' @ SQ @ ''[/yellow].'')) (\<lambda>_.
     and_then create_preseed_config (\<lambda>_.
     and_then (console_print (''SUCCESS: Preseed file [yellow]'' @ SQ @ PRESEED_FILENAME @ SQ @
                 ''[/yellow] copied to workspace.'')) (\<lambda>_.
     and_then (generate_post_install_script h) (\<lambda>_.
     and_then (console_print ''SUCCESS: Post-install script generated from JSON config.'') (\<lambda>_.
     and_then (update_bootloader_configs h) (\<lambda>_.
     and_then (console_print ''SUCCESS: ISOLINUX and GRUB configurations updated.'') (\<lambda>_.
     and_then (rebuild_iso h) (\<lambda>_.
     and_then (console_print (''SUCCESS: Custom ISO [yellow]'' @ SQ @ CUSTOM_ISO_NAME @ SQ @
                 ''[/yellow] created successfully.'')) (\<lambda>_.
     and_then (find_usb_drives h) (\<lambda>usb_drives.
     and_then (offer_flash h usb_drives) (\<lambda>_.
     console_print (NL @ ''[bold green]Process complete.[/bold green]'')))))))))))))))))"

text \<open>
  \<^verbatim>\<open>create\<close> in two parts: everything up to and including the search for drives, and what
  follows it (the selection block and the closing message).
\<close>

definition build_and_find :: "host \<Rightarrow> usb_drive list action" where
  "build_and_find h =
     and_then (console_print ''[bold cyan]Starting Debian ISO Customization Process[/bold cyan]'') (\<lambda>_.
     and_then (console_print ''[bold cyan]Starting Debian ISO Customization Process[/bold cyan]'') (\<lambda>_.
     and_then (verify_prerequisites h) (\<lambda>_.
     and_then (console_print ''SUCCESS: Prerequisites verified.'') (\<lambda>_.
     and_then (extract_iso h) (\<lambda>_.
     and_then (console_print (''SUCCESS: Source ISO extracted to [yellow]'' @ SQ @ WORKSPACE_DIR @
                 ''/'' @ SQ @ ''[/yellow].'')) (\<lambda>_.
     and_then create_preseed_config (\<lambda>_.
     and_then (console_print (''SUCCESS: Preseed file [yellow]'' @ SQ @ PRESEED_FILENAME @ SQ @
                 ''[/yellow] copied to workspace.'')) (\<lambda>_.
     and_then (generate_post_install_script h) (\<lambda>_.
     and_then (console_print ''SUCCESS: Post-install script generated from JSON config.'') (\<lambda>_.
     and_then (update_bootloader_configs h) (\<lambda>_.
     and_then (console_print ''SUCCESS: ISOLINUX and GRUB configurations updated.'') (\<lambda>_.
     and_then (rebuild_iso h) (\<lambda>_.
     and_then (console_print (''SUCCESS: Custom ISO [yellow]'' @ SQ @ CUSTOM_ISO_NAME @ SQ @
                 ''[/yellow] created successfully.'')) (\<lambda>_.
     find_usb_drives h))))))))))))))"

definition finish :: "host \<Rightarrow> usb_drive list \<Rightarrow> unit action" where
  "finish h usb_drives =
     and_then (offer_flash h usb_drives) (\<lambda>_.
     console_print (NL @ ''[bold green]Process complete.[/bold green]''))"

text \<open>
  The operator's coming answers lead the selection block to the write on \<open>device\<close>: with one
  drive found, that drive and a yes; with several, a yes, the number of a listed drive
  with that path, and a yes to the flash's own question.
\<close>

definition flash_reached :: "usb_drive list \<Rightarrow> world \<Rightarrow> string \<Rightarrow> bool" where
  "flash_reached usb_drives w device =
     (case usb_drives of
        [] \<Rightarrow> False
      | [drive] \<Rightarrow> drive_name drive = device \<and> take 1 (answers w) = [True]
      | _ \<Rightarrow>
          take 2 (answers w) = [True, True] \<and>
          (case typed w of
             [] \<Rightarrow> False
           | choice # _ \<Rightarrow>
               (case py_int choice of
                  None \<Rightarrow> False
                | Some number \<Rightarrow>
                    0 \<le> number - 1 \<and> number - 1 < int (length usb_drives) \<and>
                    drive_name (usb_drives ! nat (number - 1)) = device)))"

text \<open>The events of a flash whose write succeeds and whose ejection fails.\<close>

definition failed_eject_events :: "string \<Rightarrow> bool \<Rightarrow> event list" where
  "failed_eject_events device force =
     [Printed (''[bold yellow]Preparing to flash '' @ CUSTOM_ISO_NAME @ '' to '' @
               device @ ''...[/bold yellow]''),
      Ran (umount_command device),
      Printed (''[bold red]WARNING: This will destroy all data on '' @ device @ ''.[/bold red]'')] @
     (if force then [] else [Confirmed sure_question True]) @
     [Ran (dd_command device),
      Printed (''[bold green]Successfully flashed '' @ CUSTOM_ISO_NAME @ '' to '' @
               device @ ''.[/bold green]''),
      Printed (''[bold yellow]Ejecting '' @ device @ ''...[/bold yellow]''),
      Ran (eject_command device)]"

section \<open>Reading a run\<close>

text \<open>
  The device write is the \<^verbatim>\<open>dd\<close> run. \<open>guarded_by asks ok evs\<close> walks the events in
  order and says that every write in them comes after a yes to a question that satisfies
  \<open>asks\<close>, or that \<open>ok\<close> held from the start.
\<close>

fun is_write :: "event \<Rightarrow> bool" where
  "is_write (Ran cmd) = (take 2 cmd = [''sudo'', ''dd''])"
| "is_write _ = False"

fun guarded_by :: "(string \<Rightarrow> bool) \<Rightarrow> bool \<Rightarrow> event list \<Rightarrow> bool" where
  "guarded_by asks ok [] = True"
| "guarded_by asks ok (Ran cmd # evs) =
     (if is_write (Ran cmd) then ok \<and> guarded_by asks ok evs else guarded_by asks ok evs)"
| "guarded_by asks ok (Confirmed question answer # evs) =
     guarded_by asks (ok \<or> (answer \<and> asks question)) evs"
| "guarded_by asks ok (_ # evs) = guarded_by asks ok evs"

fun refused :: "event \<Rightarrow> bool" where
  "refused (Confirmed question answer) = (\<not> answer)"
| "refused _ = False"

fun is_confirm :: "event \<Rightarrow> bool" where
  "is_confirm (Confirmed question answer) = True"
| "is_confirm _ = False"

text \<open>The events that one call of the flash adds to the log.\<close>

definition flash_events :: "host \<Rightarrow> string \<Rightarrow> bool \<Rightarrow> world \<Rightarrow> event list" where
  "flash_events h device force w =
     drop (length (log w)) (log (snd (flash_usb_drive h device force w)))"

text \<open>The lines that the listing of the drives prints.\<close>

fun drive_listing :: "(json \<Rightarrow> string) \<Rightarrow> nat \<Rightarrow> usb_drive list \<Rightarrow> string list" where
  "drive_listing crepr i [] = []"
| "drive_listing crepr i (drive # drives) =
     (''  [bold]'' @ dec_nat (i + 1) @ ''[/bold]: '' @ drive_name drive @
        '' ('' @ py_str crepr (drive_size drive) @ '')'') # drive_listing crepr (i + 1) drives"

text \<open>
  Two properties of the events a step adds to the log, and what it means for an action to
  add only events with a given property, from whatever world it starts. A quiet stretch
  holds no write and no question; a safe stretch has every write after a yes and no write
  at all once a question was answered no.
\<close>

definition quiet_events :: "event list \<Rightarrow> bool" where
  "quiet_events evs = (\<not> list_ex is_write evs \<and> \<not> list_ex is_confirm evs)"

definition safe_events :: "event list \<Rightarrow> bool" where
  "safe_events evs =
     (guarded_by (\<lambda>q. True) False evs \<and> (list_ex refused evs \<longrightarrow> \<not> list_ex is_write evs))"

definition extends_by :: "(event list \<Rightarrow> bool) \<Rightarrow> 'a action \<Rightarrow> bool" where
  "extends_by P m = (\<forall>w. \<exists>evs. log (snd (m w)) = log w @ evs \<and> P evs)"

section \<open>Sample inputs\<close>

text \<open>A workspace holding only the two boot configurations, each one line long.\<close>

definition sample_boot_world :: world where
  "sample_boot_world =
     \<lparr>files = [isolinux_cfg_path \<mapsto> ''default vesamenu.c32'' @ NL,
                grub_cfg_path \<mapsto> ''set theme=/boot/grub/theme/1'' @ NL],
      answers = [], typed = [], log = []\<rparr>"

text \<open>
  Stands for Python's \<^verbatim>\<open>repr\<close> of lists and dicts in the sample runs, none of which
  formats a container.
\<close>

definition sample_repr :: "json \<Rightarrow> string" where
  "sample_repr v = []"

text \<open>
  What \<^verbatim>\<open>lsblk -J\<close> prints on the sample machine, \<^verbatim>\<open>{"blockdevices": [{"name":"sda", "size":"476.9G", "type":"disk", "tran":"sata"}, {"name":"sdb1", "size":"14.9G", "type":"part", "tran":"usb"}, {"name":"sdb", "size":"14.9G", "type":"disk", "tran":"usb"}]}\<close>,
  and the value it loads to: a SATA disk, a USB partition and a USB whole disk.
\<close>

definition sample_lsblk_text :: string where
  "sample_lsblk_text =
     ''{'' @ DQ @ ''blockdevices'' @ DQ @ '': [{'' @ DQ @ ''name'' @ DQ @ '':'' @ DQ @
     ''sda'' @ DQ @ '', '' @ DQ @ ''size'' @ DQ @ '':'' @ DQ @ ''476.9G'' @ DQ @ '', '' @
     DQ @ ''type'' @ DQ @ '':'' @ DQ @ ''disk'' @ DQ @ '', '' @ DQ @ ''tran'' @ DQ @
     '':'' @ DQ @ ''sata'' @ DQ @ ''}, {'' @ DQ @ ''name'' @ DQ @ '':'' @ DQ @ ''sdb1'' @
     DQ @ '', '' @ DQ @ ''size'' @ DQ @ '':'' @ DQ @ ''14.9G'' @ DQ @ '', '' @ DQ @
     ''type'' @ DQ @ '':'' @ DQ @ ''part'' @ DQ @ '', '' @ DQ @ ''tran'' @ DQ @ '':'' @
     DQ @ ''usb'' @ DQ @ ''}, {'' @ DQ @ ''name'' @ DQ @ '':'' @ DQ @ ''sdb'' @ DQ @
     '', '' @ DQ @ ''size'' @ DQ @ '':'' @ DQ @ ''14.9G'' @ DQ @ '', '' @ DQ @ ''type'' @
     DQ @ '':'' @ DQ @ ''disk'' @ DQ @ '', '' @ DQ @ ''tran'' @ DQ @ '':'' @ DQ @ ''usb'' @
     DQ @ ''}]}''"

definition sample_devices :: "json list" where
  "sample_devices =
     [JObj [(''name'', JStr ''sda''), (''size'', JStr ''476.9G''),
            (''type'', JStr ''disk''), (''tran'', JStr ''sata'')],
      JObj [(''name'', JStr ''sdb1''), (''size'', JStr ''14.9G''),
            (''type'', JStr ''part''), (''tran'', JStr ''usb'')],
      JObj [(''name'', JStr ''sdb''), (''size'', JStr ''14.9G''),
            (''type'', JStr ''disk''), (''tran'', JStr ''usb'')]]"

definition sample_lsblk_json :: json where
  "sample_lsblk_json = JObj [(''blockdevices'', JArr sample_devices)]"

text \<open>
  The provisioning configuration of the sample runs, \<^verbatim>\<open>{"packages": ["curl", "vim"], "ssh_key": {"type": "rsa", "user": "admin"}}\<close>,
  and the value it loads to.
\<close>

definition sample_config_text :: string where
  "sample_config_text =
     ''{'' @ DQ @ ''packages'' @ DQ @ '': ['' @ DQ @ ''curl'' @ DQ @ '', '' @ DQ @
     ''vim'' @ DQ @ ''], '' @ DQ @ ''ssh_key'' @ DQ @ '': {'' @ DQ @ ''type'' @ DQ @
     '': '' @ DQ @ ''rsa'' @ DQ @ '', '' @ DQ @ ''user'' @ DQ @ '': '' @ DQ @ ''admin'' @
     DQ @ ''}}''"

definition sample_config_json :: json where
  "sample_config_json =
     JObj [(''packages'', JArr [JStr ''curl'', JStr ''vim'']),
           (''ssh_key'', JObj [(''type'', JStr ''rsa''), (''user'', JStr ''admin'')])]"

text \<open>
  The sample machine. \<^verbatim>\<open>xorriso\<close> is installed; extraction puts the two boot
  configurations of the image into the workspace; repackaging writes the image; \<^verbatim>\<open>lsblk\<close>
  prints the text above; nothing of \<^verbatim>\<open>/dev/sdb\<close> is mounted, so \<^verbatim>\<open>umount\<close> exits with 32;
  \<^verbatim>\<open>dd\<close> succeeds; \<^verbatim>\<open>eject\<close> exits with \<open>eject_code\<close>. Any other program is not found, and
  nothing is written to standard error.
\<close>

definition sample_run :: "int \<Rightarrow> string list \<Rightarrow> (string \<rightharpoonup> string) \<Rightarrow> completed" where
  "sample_run eject_code cmd fs =
     (if cmd = extract_command then
        Completed 0 [] [] (fs(isolinux_cfg_path \<mapsto> ''default vesamenu.c32'' @ NL,
                              grub_cfg_path \<mapsto> ''set theme=/boot/grub/theme/1'' @ NL))
      else if cmd = rebuild_command then Completed 0 [] [] (fs(CUSTOM_ISO_NAME \<mapsto> ''iso''))
      else if cmd = lsblk_command then Completed 0 sample_lsblk_text [] fs
      else if cmd = umount_command ''/dev/sdb'' then Completed 32 [] [] fs
      else if cmd = dd_command ''/dev/sdb'' then Completed 0 [] [] fs
      else if cmd = eject_command ''/dev/sdb'' then Completed eject_code [] [] fs
      else Not_found)"

text \<open>The locale of the sample machine is ASCII: bytes decode when all are below 128.\<close>

definition sample_decodable :: "string \<Rightarrow> bool" where
  "sample_decodable bytes = list_all (\<lambda>c. (of_char c :: nat) < 128) bytes"

definition sample_loads :: "string \<Rightarrow> error + json" where
  "sample_loads text =
     (if text = sample_lsblk_text then Inr sample_lsblk_json
      else if text = sample_config_text then Inr sample_config_json
      else Inl JSONDecodeError)"

definition sample_host :: "int \<Rightarrow> host" where
  "sample_host eject_code =
     \<lparr>which = (\<lambda>name. name = ''xorriso''), run = sample_run eject_code,
      decodable = sample_decodable, json_loads = sample_loads, container_repr = sample_repr\<rparr>"

text \<open>
  A machine on which every command exits with \<open>code\<close> and prints \<open>out\<close>, and on which
  \<^verbatim>\<open>json.loads\<close> ends as \<open>loaded\<close> on that output; and a machine with no program at all.
\<close>

definition printing_host :: "int \<Rightarrow> string \<Rightarrow> error + json \<Rightarrow> host" where
  "printing_host code out loaded =
     \<lparr>which = (\<lambda>name. True), run = (\<lambda>cmd fs. Completed code out [] fs),
      decodable = sample_decodable, json_loads = (\<lambda>text. loaded), container_repr = sample_repr\<rparr>"

text \<open>A text nested deeper than the interpreter recurses: a hundred thousand brackets.\<close>

definition deep_text :: string where
  "deep_text = replicate 100000 (CHR ''['')"

definition bare_host :: host where
  "bare_host =
     \<lparr>which = (\<lambda>name. True), run = (\<lambda>cmd fs. Not_found),
      decodable = sample_decodable, json_loads = sample_loads, container_repr = sample_repr\<rparr>"

text \<open>
  Two working directories at the start of a run: one with the answer file and the
  provisioning configuration, one with the answer file only. In both the operator answers
  yes to every question.
\<close>

definition sample_world :: world where
  "sample_world =
     \<lparr>files = [PRESEED_FILENAME \<mapsto> ''d-i debian-installer/locale string en_US'' @ NL,
                POST_INSTALL_CONFIG \<mapsto> sample_config_text],
      answers = [True, True], typed = [], log = []\<rparr>"

definition sample_world_no_config :: world where
  "sample_world_no_config =
     \<lparr>files = [PRESEED_FILENAME \<mapsto> ''d-i debian-installer/locale string en_US'' @ NL],
      answers = [True, True], typed = [], log = []\<rparr>"

text \<open>
  Two USB drives found, and an operator who wants to flash, picks the first drive, and then
  declines (or accepts) the final question.
\<close>

definition sample_drives :: "usb_drive list" where
  "sample_drives =
     [\<lparr>drive_name = ''/dev/sdb'', drive_size = JStr ''14.9G''\<rparr>,
      \<lparr>drive_name = ''/dev/sdc'', drive_size = JStr ''29.8G''\<rparr>]"

definition declining_world :: world where
  "declining_world = \<lparr>files = Map.empty, answers = [True, False], typed = [''1''], log = []\<rparr>"

definition accepting_world :: world where
  "accepting_world = \<lparr>files = Map.empty, answers = [True, True], typed = [''1''], log = []\<rparr>"

text \<open>
  A workspace whose legacy boot configuration ends its one line with a carriage return and
  a line feed.
\<close>

definition crlf_boot_world :: world where
  "crlf_boot_world =
     \<lparr>files = [isolinux_cfg_path \<mapsto> ''default vesamenu.c32'' @ [CR, LF],
                grub_cfg_path \<mapsto> ''set theme=/boot/grub/theme/1'' @ NL],
      answers = [], typed = [], log = []\<rparr>"

section \<open>Properties of the bootloader patcher\<close>

lemma isolinux_cfg_path_eq: "isolinux_cfg_path = ''iso-extract/isolinux/isolinux.cfg''"
  by (simp add: isolinux_cfg_path_def os_path_join_def path_join2_def WORKSPACE_DIR_def)

lemma grub_cfg_path_eq: "grub_cfg_path = ''iso-extract/boot/grub/grub.cfg''"
  by (simp add: grub_cfg_path_def os_path_join_def path_join2_def WORKSPACE_DIR_def)

lemma cfg_paths_differ: "isolinux_cfg_path \<noteq> grub_cfg_path"
  by (simp add: isolinux_cfg_path_eq grub_cfg_path_eq)

lemma isolinux_autoinstall_config_eq:
  "isolinux_autoinstall_config =
     ''DEFAULT autoinstall'' @ NL @ ''LABEL autoinstall'' @ NL @
     ''    MENU LABEL Automated Install'' @ NL @
     ''    KERNEL /install.amd/vmlinuz'' @ NL @
     ''    APPEND initrd=/install.amd/initrd.gz --- quiet auto=true priority=critical preseed/file=/cdrom/preseed.cfg''"
  by (simp add: isolinux_autoinstall_config_def py_strip_def py_isspace_def)

lemma grub_autoinstall_entry_eq:
  "grub_autoinstall_entry =
     ''menuentry '' @ SQ @ ''Automated Unattended Install'' @ SQ @ '' --class auto {'' @ NL @
     ''    linux    /install.amd/vmlinuz --- quiet auto=true priority=critical preseed/file=/cdrom/preseed.cfg'' @ NL @
     ''    initrd   /install.amd/initrd.gz'' @ NL @ ''}''"
  by (simp add: grub_autoinstall_entry_def py_strip_def py_isspace_def)

lemma universal_newlines_plain: "CR \<notin> set s \<Longrightarrow> universal_newlines s = s"
  by (induction s rule: universal_newlines.induct) auto

lemma universal_newlines_free: "CR \<notin> set (universal_newlines s)"
  by (induction s rule: universal_newlines.induct) auto

lemma universal_newlines_length: "length (universal_newlines s) \<le> length s"
  by (induction s rule: universal_newlines.induct) auto

lemma isolinux_block_free: "CR \<notin> set (modified_isolinux_content [])"
  by (simp add: modified_isolinux_content_def isolinux_autoinstall_config_eq)

lemma grub_block_free: "CR \<notin> set (modified_grub_content [])"
  by (simp add: modified_grub_content_def grub_autoinstall_entry_eq)

lemma modified_isolinux_content_append:
  "modified_isolinux_content a = modified_isolinux_content [] @ a"
  by (simp add: modified_isolinux_content_def)

lemma modified_grub_content_append:
  "modified_grub_content g = modified_grub_content [] @ g"
  by (simp add: modified_grub_content_def)

lemma modified_isolinux_content_reread:
  "universal_newlines (modified_isolinux_content (universal_newlines a)) =
     modified_isolinux_content (universal_newlines a)"
proof -
  have "CR \<notin> set (modified_isolinux_content [] @ universal_newlines a)"
    using isolinux_block_free universal_newlines_free by simp
  then have "CR \<notin> set (modified_isolinux_content (universal_newlines a))"
    using modified_isolinux_content_append [of "universal_newlines a"] by simp
  then show ?thesis by (rule universal_newlines_plain)
qed

lemma modified_grub_content_reread:
  "universal_newlines (modified_grub_content (universal_newlines g)) =
     modified_grub_content (universal_newlines g)"
proof -
  have "CR \<notin> set (modified_grub_content [] @ universal_newlines g)"
    using grub_block_free universal_newlines_free by simp
  then have "CR \<notin> set (modified_grub_content (universal_newlines g))"
    using modified_grub_content_append [of "universal_newlines g"] by simp
  then show ?thesis by (rule universal_newlines_plain)
qed

lemma update_bootloader_configs_run:
  assumes "files w isolinux_cfg_path = Some a" and "files w grub_cfg_path = Some g"
    and "decodable h a" and "decodable h g"
  shows "update_bootloader_configs h w =
           (Inr (), w\<lparr>files := (files w)
              (isolinux_cfg_path \<mapsto> modified_isolinux_content (universal_newlines a),
               grub_cfg_path \<mapsto> modified_grub_content (universal_newlines g))\<rparr>)"
  using assms cfg_paths_differ
  by (simp add: update_bootloader_configs_def and_then_def read_file_def write_file_def)

lemma update_bootloader_configs_missing:
  assumes "files w isolinux_cfg_path = None"
  shows "update_bootloader_configs h w = (Inl (FileNotFoundError isolinux_cfg_path), w)"
  using assms by (simp add: update_bootloader_configs_def and_then_def read_file_def)

lemma update_bootloader_configs_undecodable:
  assumes "files w isolinux_cfg_path = Some a" and "\<not> decodable h a"
  shows "update_bootloader_configs h w = (Inl UnicodeDecodeError, w)"
  using assms by (simp add: update_bootloader_configs_def and_then_def read_file_def)

text \<open>
  C1, as the code has it. Whatever the stored legacy (ISOLINUX) content \<open>a\<close> and UEFI (GRUB)
  content \<open>g\<close>, if they decode, the patcher succeeds and writes back, for each, a fixed block
  of new lines followed by the text as it was read: the original with every carriage
  return and line feed pair, and every lone carriage return, turned into a line feed. That
  text is a suffix of the patched text, and the patched text is at least as long as the new
  entry plus that text. When the original holds no carriage return, the text read is the
  original itself, which is then the suffix, unmodified.
\<close>

theorem patch_keeps_text_as_read:
  assumes "files w isolinux_cfg_path = Some a" and "files w grub_cfg_path = Some g"
    and "decodable h a" and "decodable h g"
  shows "\<exists>w'. update_bootloader_configs h w = (Inr (), w') \<and>
           files w' isolinux_cfg_path = Some (modified_isolinux_content [] @ universal_newlines a) \<and>
           files w' grub_cfg_path = Some (modified_grub_content [] @ universal_newlines g) \<and>
           suffix (universal_newlines a) (modified_isolinux_content [] @ universal_newlines a) \<and>
           suffix (universal_newlines g) (modified_grub_content [] @ universal_newlines g) \<and>
           length isolinux_autoinstall_config + length (universal_newlines a)
             \<le> length (modified_isolinux_content [] @ universal_newlines a) \<and>
           length grub_autoinstall_entry + length (universal_newlines g)
             \<le> length (modified_grub_content [] @ universal_newlines g) \<and>
           (CR \<notin> set a \<longrightarrow>
              files w' isolinux_cfg_path = Some (modified_isolinux_content [] @ a) \<and>
              suffix a (modified_isolinux_content [] @ a) \<and>
              length isolinux_autoinstall_config + length a
                \<le> length (modified_isolinux_content [] @ a)) \<and>
           (CR \<notin> set g \<longrightarrow>
              files w' grub_cfg_path = Some (modified_grub_content [] @ g) \<and>
              suffix g (modified_grub_content [] @ g) \<and>
              length grub_autoinstall_entry + length g
                \<le> length (modified_grub_content [] @ g))"
proof -
  define w' where "w' = w\<lparr>files := (files w)
              (isolinux_cfg_path \<mapsto> modified_isolinux_content (universal_newlines a),
               grub_cfg_path \<mapsto> modified_grub_content (universal_newlines g))\<rparr>"
  have run: "update_bootloader_configs h w = (Inr (), w')"
    unfolding w'_def using assms by (rule update_bootloader_configs_run)
  have fa: "files w' isolinux_cfg_path = Some (modified_isolinux_content [] @ universal_newlines a)"
    using cfg_paths_differ
    by (simp add: w'_def modified_isolinux_content_append [of "universal_newlines a", symmetric])
  have fg: "files w' grub_cfg_path = Some (modified_grub_content [] @ universal_newlines g)"
    by (simp add: w'_def modified_grub_content_append [of "universal_newlines g", symmetric])
  have sa: "suffix t (modified_isolinux_content [] @ t)" for t
    by (simp add: suffix_def)
  have sg: "suffix t (modified_grub_content [] @ t)" for t
    by (simp add: suffix_def)
  have la: "length isolinux_autoinstall_config + length t
              \<le> length (modified_isolinux_content [] @ t)" for t
    by (simp add: modified_isolinux_content_def)
  have lg: "length grub_autoinstall_entry + length t
              \<le> length (modified_grub_content [] @ t)" for t
    by (simp add: modified_grub_content_def)
  have pa: "files w' isolinux_cfg_path = Some (modified_isolinux_content [] @ a)"
    if "CR \<notin> set a"
    using fa universal_newlines_plain [OF that] by simp
  have pg: "files w' grub_cfg_path = Some (modified_grub_content [] @ g)"
    if "CR \<notin> set g"
    using fg universal_newlines_plain [OF that] by simp
  from run fa fg sa sg la lg pa pg show ?thesis by blast
qed

theorem patch_keeps_text_as_read_witness:
  "files sample_boot_world isolinux_cfg_path = Some (''default vesamenu.c32'' @ NL) \<and>
   files sample_boot_world grub_cfg_path = Some (''set theme=/boot/grub/theme/1'' @ NL) \<and>
   decodable (sample_host 0) (''default vesamenu.c32'' @ NL) \<and>
   decodable (sample_host 0) (''set theme=/boot/grub/theme/1'' @ NL) \<and>
   CR \<notin> set (''default vesamenu.c32'' @ NL) \<and>
   CR \<notin> set (''set theme=/boot/grub/theme/1'' @ NL) \<and>
   (\<exists>w'. update_bootloader_configs (sample_host 0) sample_boot_world = (Inr (), w') \<and>
      files w' isolinux_cfg_path =
        Some (modified_isolinux_content [] @ ''default vesamenu.c32'' @ NL) \<and>
      files w' grub_cfg_path =
        Some (modified_grub_content [] @ ''set theme=/boot/grub/theme/1'' @ NL) \<and>
      suffix (''default vesamenu.c32'' @ NL)
        (modified_isolinux_content [] @ ''default vesamenu.c32'' @ NL) \<and>
      suffix (''set theme=/boot/grub/theme/1'' @ NL)
        (modified_grub_content [] @ ''set theme=/boot/grub/theme/1'' @ NL))"
proof -
  have a: "files sample_boot_world isolinux_cfg_path = Some (''default vesamenu.c32'' @ NL)"
    using cfg_paths_differ by (simp add: sample_boot_world_def)
  have g: "files sample_boot_world grub_cfg_path = Some (''set theme=/boot/grub/theme/1'' @ NL)"
    by (simp add: sample_boot_world_def)
  have da: "decodable (sample_host 0) (''default vesamenu.c32'' @ NL)"
    by (simp add: sample_host_def sample_decodable_def)
  have dg: "decodable (sample_host 0) (''set theme=/boot/grub/theme/1'' @ NL)"
    by (simp add: sample_host_def sample_decodable_def)
  have ca: "CR \<notin> set (''default vesamenu.c32'' @ NL)" by simp
  have cg: "CR \<notin> set (''set theme=/boot/grub/theme/1'' @ NL)" by simp
  from patch_keeps_text_as_read [OF a g da dg] a g da dg ca cg show ?thesis by blast
qed

text \<open>
  The original itself is not always kept: a legacy configuration whose line ends with a
  carriage return and a line feed is written back with the line feed alone, and the stored
  original is no suffix of the patched text.
\<close>

theorem patch_drops_carriage_return_counterexample:
  "files crlf_boot_world isolinux_cfg_path = Some (''default vesamenu.c32'' @ [CR, LF]) \<and>
   fst (update_bootloader_configs (sample_host 0) crlf_boot_world) = Inr () \<and>
   files (snd (update_bootloader_configs (sample_host 0) crlf_boot_world)) isolinux_cfg_path =
     Some (modified_isolinux_content [] @ ''default vesamenu.c32'' @ [LF]) \<and>
   \<not> suffix (''default vesamenu.c32'' @ [CR, LF])
       (modified_isolinux_content [] @ ''default vesamenu.c32'' @ [LF])"
proof -
  have a: "files crlf_boot_world isolinux_cfg_path = Some (''default vesamenu.c32'' @ [CR, LF])"
    using cfg_paths_differ by (simp add: crlf_boot_world_def)
  have g: "files crlf_boot_world grub_cfg_path = Some (''set theme=/boot/grub/theme/1'' @ NL)"
    by (simp add: crlf_boot_world_def)
  have da: "decodable (sample_host 0) (''default vesamenu.c32'' @ [CR, LF])"
    by (simp add: sample_host_def sample_decodable_def)
  have dg: "decodable (sample_host 0) (''set theme=/boot/grub/theme/1'' @ NL)"
    by (simp add: sample_host_def sample_decodable_def)
  have tr: "universal_newlines (''default vesamenu.c32'' @ [CR, LF]) = ''default vesamenu.c32'' @ [LF]"
    by simp
  have run: "update_bootloader_configs (sample_host 0) crlf_boot_world =
           (Inr (), crlf_boot_world\<lparr>files := (files crlf_boot_world)
              (isolinux_cfg_path \<mapsto>
                 modified_isolinux_content (universal_newlines (''default vesamenu.c32'' @ [CR, LF])),
               grub_cfg_path \<mapsto>
                 modified_grub_content (universal_newlines (''set theme=/boot/grub/theme/1'' @ NL)))\<rparr>)"
    using a g da dg by (rule update_bootloader_configs_run)
  have f0: "files (snd (update_bootloader_configs (sample_host 0) crlf_boot_world)) isolinux_cfg_path =
     Some (modified_isolinux_content (universal_newlines (''default vesamenu.c32'' @ [CR, LF])))"
    unfolding run using cfg_paths_differ by simp
  have f: "files (snd (update_bootloader_configs (sample_host 0) crlf_boot_world)) isolinux_cfg_path =
     Some (modified_isolinux_content [] @ ''default vesamenu.c32'' @ [LF])"
    by (simp only: f0 tr modified_isolinux_content_append [of "''default vesamenu.c32'' @ [LF]", symmetric])
  have "\<not> suffix ((''default vesamenu.c32'' @ [CR]) @ [LF])
            ((modified_isolinux_content [] @ ''default vesamenu.c3'' @ ''2'') @ [LF])"
    unfolding snoc_suffix_snoc
    by (simp add: suffix_def)
  then have n: "\<not> suffix (''default vesamenu.c32'' @ [CR, LF])
       (modified_isolinux_content [] @ ''default vesamenu.c32'' @ [LF])"
    by simp
  from a run f n show ?thesis by simp
qed

text \<open>
  C9. The patcher is not idempotent. For every text \<open>t\<close>, patching the patched text puts the
  timeout directives and the automated entry in front a second time, and the result is
  strictly longer than after one patch. Run on a workspace whose boot configurations it has
  already patched (all of them decodable), the patcher reads the patched texts back and
  writes them with the same block once more in front: after two runs each file differs
  from what it was after one.
\<close>

theorem patch_twice_prepends_twice:
  assumes "files w isolinux_cfg_path = Some a" and "files w grub_cfg_path = Some g"
    and "decodable h a" and "decodable h g"
    and "decodable h (modified_isolinux_content (universal_newlines a))"
    and "decodable h (modified_grub_content (universal_newlines g))"
  shows "modified_isolinux_content (modified_isolinux_content t) =
           modified_isolinux_content [] @ modified_isolinux_content [] @ t \<and>
         modified_grub_content (modified_grub_content t) =
           modified_grub_content [] @ modified_grub_content [] @ t \<and>
         length (modified_isolinux_content t) < length (modified_isolinux_content (modified_isolinux_content t)) \<and>
         length (modified_grub_content t) < length (modified_grub_content (modified_grub_content t)) \<and>
         modified_isolinux_content (modified_isolinux_content t) \<noteq> modified_isolinux_content t \<and>
         modified_grub_content (modified_grub_content t) \<noteq> modified_grub_content t \<and>
         (\<exists>w1 w2. update_bootloader_configs h w = (Inr (), w1) \<and>
            update_bootloader_configs h w1 = (Inr (), w2) \<and>
            files w1 isolinux_cfg_path = Some (modified_isolinux_content [] @ universal_newlines a) \<and>
            files w2 isolinux_cfg_path =
              Some (modified_isolinux_content [] @ modified_isolinux_content [] @ universal_newlines a) \<and>
            files w1 grub_cfg_path = Some (modified_grub_content [] @ universal_newlines g) \<and>
            files w2 grub_cfg_path =
              Some (modified_grub_content [] @ modified_grub_content [] @ universal_newlines g) \<and>
            files w2 isolinux_cfg_path \<noteq> files w1 isolinux_cfg_path \<and>
            files w2 grub_cfg_path \<noteq> files w1 grub_cfg_path)"
proof -
  let ?a = "universal_newlines a" and ?g = "universal_newlines g"
  define w1 where "w1 = w\<lparr>files := (files w)(isolinux_cfg_path \<mapsto> modified_isolinux_content ?a,
                                               grub_cfg_path \<mapsto> modified_grub_content ?g)\<rparr>"
  define w2 where "w2 = w1\<lparr>files := (files w1)
      (isolinux_cfg_path \<mapsto>
         modified_isolinux_content (universal_newlines (modified_isolinux_content ?a)),
       grub_cfg_path \<mapsto>
         modified_grub_content (universal_newlines (modified_grub_content ?g)))\<rparr>"
  have ea: "modified_isolinux_content (modified_isolinux_content s) =
              modified_isolinux_content [] @ modified_isolinux_content [] @ s" for s
    by (simp add: modified_isolinux_content_def)
  have eg: "modified_grub_content (modified_grub_content s) =
              modified_grub_content [] @ modified_grub_content [] @ s" for s
    by (simp add: modified_grub_content_def)
  have la: "length (modified_isolinux_content s) <
              length (modified_isolinux_content (modified_isolinux_content s))" for s
    by (simp add: modified_isolinux_content_def)
  have lg: "length (modified_grub_content s) <
              length (modified_grub_content (modified_grub_content s))" for s
    by (simp add: modified_grub_content_def)
  have na: "modified_isolinux_content (modified_isolinux_content s) \<noteq> modified_isolinux_content s"
    for s using la [of s] by auto
  have ng: "modified_grub_content (modified_grub_content s) \<noteq> modified_grub_content s"
    for s using lg [of s] by auto
  have r1: "update_bootloader_configs h w = (Inr (), w1)"
    unfolding w1_def using assms(1-4) by (rule update_bootloader_configs_run)
  have a1: "files w1 isolinux_cfg_path = Some (modified_isolinux_content ?a)"
    using cfg_paths_differ by (simp add: w1_def)
  have g1: "files w1 grub_cfg_path = Some (modified_grub_content ?g)"
    by (simp add: w1_def)
  have r2: "update_bootloader_configs h w1 = (Inr (), w2)"
    unfolding w2_def using a1 g1 assms(5,6) by (rule update_bootloader_configs_run)
  have a2: "files w2 isolinux_cfg_path =
              Some (modified_isolinux_content (modified_isolinux_content ?a))"
    using cfg_paths_differ by (simp add: w2_def modified_isolinux_content_reread)
  have g2: "files w2 grub_cfg_path = Some (modified_grub_content (modified_grub_content ?g))"
    by (simp add: w2_def modified_grub_content_reread)
  have a1': "files w1 isolinux_cfg_path = Some (modified_isolinux_content [] @ ?a)"
    by (simp only: a1 modified_isolinux_content_append [of ?a, symmetric])
  have g1': "files w1 grub_cfg_path = Some (modified_grub_content [] @ ?g)"
    by (simp only: g1 modified_grub_content_append [of ?g, symmetric])
  have a2': "files w2 isolinux_cfg_path =
               Some (modified_isolinux_content [] @ modified_isolinux_content [] @ ?a)"
    by (simp only: a2 ea)
  have g2': "files w2 grub_cfg_path =
               Some (modified_grub_content [] @ modified_grub_content [] @ ?g)"
    by (simp only: g2 eg)
  have da: "files w2 isolinux_cfg_path \<noteq> files w1 isolinux_cfg_path"
    using na [of ?a] by (simp add: a1 a2)
  have dg: "files w2 grub_cfg_path \<noteq> files w1 grub_cfg_path"
    using ng [of ?g] by (simp add: g1 g2)
  have runs: "\<exists>w1 w2. update_bootloader_configs h w = (Inr (), w1) \<and>
            update_bootloader_configs h w1 = (Inr (), w2) \<and>
            files w1 isolinux_cfg_path = Some (modified_isolinux_content [] @ ?a) \<and>
            files w2 isolinux_cfg_path =
              Some (modified_isolinux_content [] @ modified_isolinux_content [] @ ?a) \<and>
            files w1 grub_cfg_path = Some (modified_grub_content [] @ ?g) \<and>
            files w2 grub_cfg_path =
              Some (modified_grub_content [] @ modified_grub_content [] @ ?g) \<and>
            files w2 isolinux_cfg_path \<noteq> files w1 isolinux_cfg_path \<and>
            files w2 grub_cfg_path \<noteq> files w1 grub_cfg_path"
    using r1 r2 a1' a2' g1' g2' da dg by blast
  from ea [of t] eg [of t] la [of t] lg [of t] na [of t] ng [of t] runs show ?thesis
    by blast
qed

theorem patch_twice_prepends_twice_witness:
  "files sample_boot_world isolinux_cfg_path = Some (''default vesamenu.c32'' @ NL) \<and>
   files sample_boot_world grub_cfg_path = Some (''set theme=/boot/grub/theme/1'' @ NL) \<and>
   decodable (sample_host 0) (''default vesamenu.c32'' @ NL) \<and>
   decodable (sample_host 0) (''set theme=/boot/grub/theme/1'' @ NL) \<and>
   decodable (sample_host 0) (modified_isolinux_content (''default vesamenu.c32'' @ NL)) \<and>
   decodable (sample_host 0) (modified_grub_content (''set theme=/boot/grub/theme/1'' @ NL)) \<and>
   (\<exists>w1 w2. update_bootloader_configs (sample_host 0) sample_boot_world = (Inr (), w1) \<and>
      update_bootloader_configs (sample_host 0) w1 = (Inr (), w2) \<and>
      files w2 isolinux_cfg_path =
        Some (modified_isolinux_content [] @ modified_isolinux_content [] @ ''default vesamenu.c32'' @ NL) \<and>
      files w2 isolinux_cfg_path \<noteq> files w1 isolinux_cfg_path)"
proof -
  have a: "files sample_boot_world isolinux_cfg_path = Some (''default vesamenu.c32'' @ NL)"
    using cfg_paths_differ by (simp add: sample_boot_world_def)
  have g: "files sample_boot_world grub_cfg_path = Some (''set theme=/boot/grub/theme/1'' @ NL)"
    by (simp add: sample_boot_world_def)
  have ta: "universal_newlines (''default vesamenu.c32'' @ NL) = ''default vesamenu.c32'' @ NL"
    by (rule universal_newlines_plain) simp
  have tg: "universal_newlines (''set theme=/boot/grub/theme/1'' @ NL) =
              ''set theme=/boot/grub/theme/1'' @ NL"
    by (rule universal_newlines_plain) simp
  have da: "decodable (sample_host 0) (''default vesamenu.c32'' @ NL)"
    by (simp add: sample_host_def sample_decodable_def)
  have dg: "decodable (sample_host 0) (''set theme=/boot/grub/theme/1'' @ NL)"
    by (simp add: sample_host_def sample_decodable_def)
  have dma: "decodable (sample_host 0) (modified_isolinux_content (''default vesamenu.c32'' @ NL))"
    by (simp add: sample_host_def sample_decodable_def modified_isolinux_content_def
          isolinux_autoinstall_config_eq)
  have dmg: "decodable (sample_host 0) (modified_grub_content (''set theme=/boot/grub/theme/1'' @ NL))"
    by (simp add: sample_host_def sample_decodable_def modified_grub_content_def
          grub_autoinstall_entry_eq)
  have dma': "decodable (sample_host 0)
                (modified_isolinux_content (universal_newlines (''default vesamenu.c32'' @ NL)))"
    using dma by (simp only: ta)
  have dmg': "decodable (sample_host 0)
                (modified_grub_content (universal_newlines (''set theme=/boot/grub/theme/1'' @ NL)))"
    using dmg by (simp only: tg)
  from patch_twice_prepends_twice [OF a g da dg dma' dmg'] obtain w1 w2 where
    "update_bootloader_configs (sample_host 0) sample_boot_world = (Inr (), w1)"
    "update_bootloader_configs (sample_host 0) w1 = (Inr (), w2)"
    "files w2 isolinux_cfg_path =
       Some (modified_isolinux_content [] @ modified_isolinux_content [] @
             universal_newlines (''default vesamenu.c32'' @ NL))"
    "files w2 isolinux_cfg_path \<noteq> files w1 isolinux_cfg_path"
    by blast
  then have "\<exists>w1 w2. update_bootloader_configs (sample_host 0) sample_boot_world = (Inr (), w1) \<and>
      update_bootloader_configs (sample_host 0) w1 = (Inr (), w2) \<and>
      files w2 isolinux_cfg_path =
        Some (modified_isolinux_content [] @ modified_isolinux_content [] @ ''default vesamenu.c32'' @ NL) \<and>
      files w2 isolinux_cfg_path \<noteq> files w1 isolinux_cfg_path"
    unfolding ta by blast
  with a g da dg dma dmg show ?thesis by blast
qed


section \<open>Properties of the post-install script generator\<close>






















section \<open>Properties of the removable-device locator\<close>

lemma find_usb_drives_try_not_found:
  assumes "run h lsblk_command (files w) = Not_found"
  shows "find_usb_drives_try h w =
           (Inl (FileNotFoundError ''lsblk''), w\<lparr>log := log w @ [Ran lsblk_command]\<rparr>)"
  using assms
  by (simp add: find_usb_drives_try_def and_then_def subprocess_run_text_def lsblk_command_def)

lemma find_usb_drives_try_undecodable:
  assumes "run h lsblk_command (files w) = Completed rc out err fs"
    and "\<not> decodable h out \<or> \<not> decodable h err"
  shows "find_usb_drives_try h w =
           (Inl UnicodeDecodeError, w\<lparr>log := log w @ [Ran lsblk_command], files := fs\<rparr>)"
  using assms
  by (auto simp: find_usb_drives_try_def and_then_def subprocess_run_text_def)

lemma find_usb_drives_try_nonzero:
  assumes "run h lsblk_command (files w) = Completed rc out err fs"
    and "decodable h out" and "decodable h err" and "rc \<noteq> 0"
  shows "find_usb_drives_try h w =
           (Inl (CalledProcessError lsblk_command rc),
            w\<lparr>log := log w @ [Ran lsblk_command], files := fs\<rparr>)"
  using assms
  by (simp add: find_usb_drives_try_def and_then_def subprocess_run_text_def)

lemma find_usb_drives_try_not_loaded:
  assumes "run h lsblk_command (files w) = Completed 0 out err fs"
    and "decodable h out" and "decodable h err"
    and "json_loads h (universal_newlines out) = Inl e"
  shows "find_usb_drives_try h w =
           (Inl e, w\<lparr>log := log w @ [Ran lsblk_command], files := fs\<rparr>)"
  using assms
  by (simp add: find_usb_drives_try_def and_then_def subprocess_run_text_def json_load_def
        lift_def raise_def)

lemma find_usb_drives_try_loaded:
  assumes "run h lsblk_command (files w) = Completed 0 out err fs"
    and "decodable h out" and "decodable h err"
    and "json_loads h (universal_newlines out) = Inr loaded"
    and "py_get loaded ''blockdevices'' (JArr []) = Inr (JArr devs)"
  shows "find_usb_drives_try h w =
           (usb_drives_of (container_repr h) devs,
            w\<lparr>log := log w @ [Ran lsblk_command], files := fs\<rparr>)"
  using assms
  by (cases "usb_drives_of (container_repr h) devs")
     (simp_all add: find_usb_drives_try_def and_then_def subprocess_run_text_def json_load_def
        lift_def raise_def succeed_def)

text \<open>
  C5, as the code has it. The locator returns the empty list, and raises nothing, when
  \<^verbatim>\<open>lsblk\<close> is not installed, when it exits with a nonzero code (its output being decodable),
  and when its decodable output is text that \<^verbatim>\<open>json.loads\<close> rejects with \<^verbatim>\<open>JSONDecodeError\<close>:
  these are the three exceptions it catches. Output that does not decode raises
  \<^verbatim>\<open>UnicodeDecodeError\<close>, and a \<^verbatim>\<open>RecursionError\<close> or \<^verbatim>\<open>ValueError\<close> of \<^verbatim>\<open>json.loads\<close> is raised
  as it is.
\<close>

theorem locator_empty_on_caught_failures:
  "(run h lsblk_command (files w) = Not_found \<longrightarrow> fst (find_usb_drives h w) = Inr []) \<and>
   (run h lsblk_command (files w) = Completed rc out err fs \<and>
    decodable h out \<and> decodable h err \<and> rc \<noteq> 0 \<longrightarrow>
      fst (find_usb_drives h w) = Inr []) \<and>
   (run h lsblk_command (files w) = Completed 0 out err fs \<and>
    decodable h out \<and> decodable h err \<and>
    json_loads h (universal_newlines out) = Inl JSONDecodeError \<longrightarrow>
      fst (find_usb_drives h w) = Inr []) \<and>
   (run h lsblk_command (files w) = Completed rc out err fs \<and>
    (\<not> decodable h out \<or> \<not> decodable h err) \<longrightarrow>
      fst (find_usb_drives h w) = Inl UnicodeDecodeError) \<and>
   (run h lsblk_command (files w) = Completed 0 out err fs \<and>
    decodable h out \<and> decodable h err \<and>
    json_loads h (universal_newlines out) = Inl e \<and> (e = RecursionError \<or> e = ValueError) \<longrightarrow>
      fst (find_usb_drives h w) = Inl e)"
proof (intro conjI impI)
  assume "run h lsblk_command (files w) = Not_found"
  then show "fst (find_usb_drives h w) = Inr []"
    by (simp add: find_usb_drives_def find_usb_drives_try_not_found)
next
  assume "run h lsblk_command (files w) = Completed rc out err fs \<and>
          decodable h out \<and> decodable h err \<and> rc \<noteq> 0"
  then show "fst (find_usb_drives h w) = Inr []"
    by (simp add: find_usb_drives_def find_usb_drives_try_nonzero)
next
  assume "run h lsblk_command (files w) = Completed 0 out err fs \<and>
          decodable h out \<and> decodable h err \<and>
          json_loads h (universal_newlines out) = Inl JSONDecodeError"
  then show "fst (find_usb_drives h w) = Inr []"
    by (simp add: find_usb_drives_def find_usb_drives_try_not_loaded)
next
  assume a: "run h lsblk_command (files w) = Completed rc out err fs \<and>
          (\<not> decodable h out \<or> \<not> decodable h err)"
  then have r: "run h lsblk_command (files w) = Completed rc out err fs"
    and d: "\<not> decodable h out \<or> \<not> decodable h err" by blast+
  from r d have "find_usb_drives_try h w =
           (Inl UnicodeDecodeError, w\<lparr>log := log w @ [Ran lsblk_command], files := fs\<rparr>)"
    by (rule find_usb_drives_try_undecodable)
  then show "fst (find_usb_drives h w) = Inl UnicodeDecodeError"
    by (simp add: find_usb_drives_def)
next
  assume a: "run h lsblk_command (files w) = Completed 0 out err fs \<and>
          decodable h out \<and> decodable h err \<and>
          json_loads h (universal_newlines out) = Inl e \<and> (e = RecursionError \<or> e = ValueError)"
  then have "run h lsblk_command (files w) = Completed 0 out err fs"
    and "decodable h out" and "decodable h err"
    and "json_loads h (universal_newlines out) = Inl e" by blast+
  then have "find_usb_drives_try h w =
           (Inl e, w\<lparr>log := log w @ [Ran lsblk_command], files := fs\<rparr>)"
    by (rule find_usb_drives_try_not_loaded)
  with a show "fst (find_usb_drives h w) = Inl e"
    by (auto simp: find_usb_drives_def)
qed

lemma deep_text_plain: "universal_newlines deep_text = deep_text"
  by (rule universal_newlines_plain) (simp add: deep_text_def)

lemma deep_text_decodable: "sample_decodable deep_text"
  by (simp add: sample_decodable_def deep_text_def list_all_iff)

theorem locator_empty_on_caught_failures_witness:
  "fst (find_usb_drives bare_host sample_world) = Inr [] \<and>
   fst (find_usb_drives (printing_host 32 [] (Inl JSONDecodeError)) sample_world) = Inr [] \<and>
   fst (find_usb_drives (printing_host 0 ''lsblk: unknown option'' (Inl JSONDecodeError))
          sample_world) = Inr [] \<and>
   fst (find_usb_drives (printing_host 0 [CHR 0xFF] (Inl JSONDecodeError)) sample_world) =
     Inl UnicodeDecodeError \<and>
   fst (find_usb_drives (printing_host 0 deep_text (Inl RecursionError)) sample_world) =
     Inl RecursionError"
proof -
  have one: "fst (find_usb_drives bare_host sample_world) = Inr []"
    using locator_empty_on_caught_failures [of bare_host sample_world]
    by (simp add: bare_host_def)
  have two: "fst (find_usb_drives (printing_host 32 [] (Inl JSONDecodeError)) sample_world) = Inr []"
    using locator_empty_on_caught_failures
            [of "printing_host 32 [] (Inl JSONDecodeError)" sample_world 32 "[]" "[]"
                "files sample_world"]
    by (simp add: printing_host_def sample_decodable_def)
  have three: "fst (find_usb_drives (printing_host 0 ''lsblk: unknown option'' (Inl JSONDecodeError))
          sample_world) = Inr []"
    using locator_empty_on_caught_failures
            [of "printing_host 0 ''lsblk: unknown option'' (Inl JSONDecodeError)" sample_world 0
                "''lsblk: unknown option''" "[]" "files sample_world"]
    by (simp add: printing_host_def sample_decodable_def)
  have four: "fst (find_usb_drives (printing_host 0 [CHR 0xFF] (Inl JSONDecodeError)) sample_world) =
     Inl UnicodeDecodeError"
    using locator_empty_on_caught_failures
            [of "printing_host 0 [CHR 0xFF] (Inl JSONDecodeError)" sample_world 0
                "[CHR 0xFF]" "[]" "files sample_world"]
    by (simp add: printing_host_def sample_decodable_def)
  have five: "fst (find_usb_drives (printing_host 0 deep_text (Inl RecursionError)) sample_world) =
     Inl RecursionError"
    using locator_empty_on_caught_failures
            [of "printing_host 0 deep_text (Inl RecursionError)" sample_world 0
                deep_text "[]" "files sample_world" RecursionError]
          deep_text_decodable
    by (simp add: printing_host_def) (simp add: sample_decodable_def)
  from one two three four five show ?thesis by simp
qed

text \<open>
  That the locator never raises on unparseable output does not hold: when \<^verbatim>\<open>lsblk\<close> prints
  the single byte 0xFF, which is no text in the locale of the sample machine, the locator
  raises \<^verbatim>\<open>UnicodeDecodeError\<close> instead of returning the empty list.
\<close>

theorem locator_raises_on_undecodable_output_counterexample:
  "run (printing_host 0 [CHR 0xFF] (Inl JSONDecodeError)) lsblk_command (files sample_world) =
     Completed 0 [CHR 0xFF] [] (files sample_world) \<and>
   fst (find_usb_drives (printing_host 0 [CHR 0xFF] (Inl JSONDecodeError)) sample_world) =
     Inl UnicodeDecodeError \<and>
   fst (find_usb_drives (printing_host 0 [CHR 0xFF] (Inl JSONDecodeError)) sample_world) \<noteq> Inr []"
proof -
  have r: "run (printing_host 0 [CHR 0xFF] (Inl JSONDecodeError)) lsblk_command (files sample_world) =
     Completed 0 [CHR 0xFF] [] (files sample_world)"
    by (simp add: printing_host_def)
  have d: "\<not> decodable (printing_host 0 [CHR 0xFF] (Inl JSONDecodeError)) [CHR 0xFF] \<or>
           \<not> decodable (printing_host 0 [CHR 0xFF] (Inl JSONDecodeError)) []"
    by (simp add: printing_host_def sample_decodable_def)
  have "fst (find_usb_drives (printing_host 0 [CHR 0xFF] (Inl JSONDecodeError)) sample_world) =
     Inl UnicodeDecodeError"
    by (simp add: find_usb_drives_def find_usb_drives_try_undecodable [OF r d])
  with r show ?thesis by simp
qed

lemma usb_test_dict:
  "(case map_of kv ''tran'' of None \<Rightarrow> JNull | Some v \<Rightarrow> v) = JStr ''usb'' \<longleftrightarrow>
     map_of kv ''tran'' = Some (JStr ''usb'')"
  by (cases "map_of kv ''tran''") auto

lemma disk_test_dict:
  "(case map_of kv ''type'' of None \<Rightarrow> JNull | Some v \<Rightarrow> v) = JStr ''disk'' \<longleftrightarrow>
     map_of kv ''type'' = Some (JStr ''disk'')"
  by (cases "map_of kv ''type''") auto

lemma usb_drives_of_step:
  assumes "usb_drives_of crepr (dev # devs) = Inr ds"
  shows "\<exists>kv. dev = JObj kv \<and>
           (if spec_usb_whole_disk dev
            then \<exists>d rest. spec_descriptor crepr dev = Some d \<and> ds = d # rest \<and>
                          usb_drives_of crepr devs = Inr rest
            else usb_drives_of crepr devs = Inr ds)"
proof (cases dev)
  case (JObj kv)
  show ?thesis
  proof (cases "spec_usb_whole_disk dev")
    case True
    with JObj have t: "map_of kv ''tran'' = Some (JStr ''usb'')"
      and k: "map_of kv ''type'' = Some (JStr ''disk'')" by simp_all
    from assms JObj t k show ?thesis
      by (auto simp: py_item_def split: option.splits sum.splits)
  next
    case False
    with JObj have "map_of kv ''tran'' \<noteq> Some (JStr ''usb'') \<or>
                    map_of kv ''type'' \<noteq> Some (JStr ''disk'')" by simp
    then have "usb_drives_of crepr (dev # devs) = usb_drives_of crepr devs"
      using JObj by (auto simp: usb_test_dict disk_test_dict)
    with assms have "usb_drives_of crepr devs = Inr ds" by simp
    with False JObj show ?thesis by auto
  qed
qed (use assms in simp_all)

lemma usb_drives_of_spec:
  "usb_drives_of crepr devs = Inr ds \<Longrightarrow>
     map Some ds = map (spec_descriptor crepr) (filter spec_usb_whole_disk devs)"
proof (induction devs arbitrary: ds)
  case Nil
  then show ?case by simp
next
  case (Cons dev devs)
  from usb_drives_of_step [OF Cons.prems] obtain kv where dev: "dev = JObj kv"
    and step: "if spec_usb_whole_disk dev
            then \<exists>d rest. spec_descriptor crepr dev = Some d \<and> ds = d # rest \<and>
                          usb_drives_of crepr devs = Inr rest
            else usb_drives_of crepr devs = Inr ds"
    by blast
  show ?case
  proof (cases "spec_usb_whole_disk dev")
    case True
    with step obtain d rest where "spec_descriptor crepr dev = Some d" "ds = d # rest"
      "usb_drives_of crepr devs = Inr rest" by auto
    with True Cons.IH [of rest] show ?thesis by simp
  next
    case False
    with step Cons.IH [of ds] show ?thesis by simp
  qed
qed

lemma usb_drives_of_total:
  "list_all (\<lambda>dev. spec_descriptor crepr dev \<noteq> None) devs \<Longrightarrow>
     \<exists>ds. usb_drives_of crepr devs = Inr ds"
proof (induction devs)
  case Nil
  then show ?case by simp
next
  case (Cons dev devs)
  then obtain ds where ds: "usb_drives_of crepr devs = Inr ds" by auto
  from Cons.prems have "spec_descriptor crepr dev \<noteq> None" by simp
  then obtain kv n s where dev: "dev = JObj kv" and n: "map_of kv ''name'' = Some n"
    and s: "map_of kv ''size'' = Some s"
    by (cases dev) (auto split: option.splits)
  show ?case
    using dev n s ds by (simp add: py_item_def)
qed

lemma usb_drives_of_error:
  "usb_drives_of crepr devs = Inl e \<Longrightarrow> \<not> enumeration_failure e"
proof (induction devs)
  case Nil
  then show ?case by simp
next
  case (Cons dev devs)
  then show ?case
    by (cases dev) (auto simp: py_item_def split: if_splits sum.splits option.splits)
qed

lemma find_usb_drives_loaded:
  assumes "run h lsblk_command (files w) = Completed 0 out err fs"
    and "decodable h out" and "decodable h err"
    and "json_loads h (universal_newlines out) = Inr loaded"
    and "py_get loaded ''blockdevices'' (JArr []) = Inr (JArr devs)"
  shows "fst (find_usb_drives h w) = usb_drives_of (container_repr h) devs"
proof (cases "usb_drives_of (container_repr h) devs")
  case (Inl e)
  then have "\<not> enumeration_failure e" by (rule usb_drives_of_error)
  with Inl show ?thesis
    by (simp add: find_usb_drives_def find_usb_drives_try_loaded [OF assms])
next
  case (Inr ds)
  then show ?thesis
    by (simp add: find_usb_drives_def find_usb_drives_try_loaded [OF assms])
qed

text \<open>
  C6. When \<^verbatim>\<open>lsblk\<close> succeeds and its output decodes and loads to an object whose \<^verbatim>\<open>blockdevices\<close> is
  the list \<open>devs\<close>, every list the locator returns is, in order, the descriptors of
  exactly those devices of \<open>devs\<close> whose transport is USB and whose class is a whole disk;
  and it does return a list when every device is an object with a name and a size. On a
  list of a SATA disk, a USB partition and a USB whole disk, the USB whole disk alone comes
  back.
\<close>

theorem locator_returns_usb_whole_disks:
  assumes "run h lsblk_command (files w) = Completed 0 out err fs"
    and "decodable h out" and "decodable h err"
    and "json_loads h (universal_newlines out) = Inr loaded"
    and "py_get loaded ''blockdevices'' (JArr []) = Inr (JArr devs)"
  shows "(\<forall>ds. fst (find_usb_drives h w) = Inr ds \<longrightarrow>
            map Some ds = map (spec_descriptor (container_repr h)) (filter spec_usb_whole_disk devs)) \<and>
         (list_all (\<lambda>dev. spec_descriptor (container_repr h) dev \<noteq> None) devs \<longrightarrow>
            (\<exists>ds. fst (find_usb_drives h w) = Inr ds))"
  using find_usb_drives_loaded [OF assms] usb_drives_of_spec usb_drives_of_total
  by metis

theorem locator_returns_usb_whole_disks_witness:
  "fst (find_usb_drives (sample_host 0) sample_world) =
     Inr [\<lparr>drive_name = ''/dev/sdb'', drive_size = JStr ''14.9G''\<rparr>]"
proof -
  have a: "run (sample_host 0) lsblk_command (files sample_world) =
             Completed 0 sample_lsblk_text [] (files sample_world)"
    by (simp add: sample_host_def sample_run_def lsblk_command_def extract_command_def
          rebuild_command_def)
  have a1: "decodable (sample_host 0) sample_lsblk_text"
    by (simp add: sample_host_def sample_decodable_def sample_lsblk_text_def)
  have a2: "decodable (sample_host 0) []"
    by (simp add: sample_host_def sample_decodable_def)
  have plain: "universal_newlines sample_lsblk_text = sample_lsblk_text"
    by (rule universal_newlines_plain) (simp add: sample_lsblk_text_def)
  have b: "json_loads (sample_host 0) (universal_newlines sample_lsblk_text) = Inr sample_lsblk_json"
    by (simp add: plain sample_host_def sample_loads_def)
  have c: "py_get sample_lsblk_json ''blockdevices'' (JArr []) = Inr (JArr sample_devices)"
    by (simp add: sample_lsblk_json_def)
  have d: "list_all (\<lambda>dev. spec_descriptor (container_repr (sample_host 0)) dev \<noteq> None)
             sample_devices"
    by (simp add: sample_devices_def)
  have e: "map (spec_descriptor (container_repr (sample_host 0)))
             (filter spec_usb_whole_disk sample_devices) =
           [Some \<lparr>drive_name = ''/dev/sdb'', drive_size = JStr ''14.9G''\<rparr>]"
    by (simp add: sample_devices_def)
  from locator_returns_usb_whole_disks [OF a a1 a2 b c] d obtain ds where
    ds: "fst (find_usb_drives (sample_host 0) sample_world) = Inr ds"
    and m: "map Some ds = map (spec_descriptor (container_repr (sample_host 0)))
                           (filter spec_usb_whole_disk sample_devices)"
    by blast
  from m e have "ds = [\<lparr>drive_name = ''/dev/sdb'', drive_size = JStr ''14.9G''\<rparr>]"
    by (cases ds) auto
  with ds show ?thesis by simp
qed


section \<open>Properties of the pipeline\<close>

lemma preseed_dest_eq: "os_path_join WORKSPACE_DIR [PRESEED_FILENAME] = ''iso-extract/preseed.cfg''"
  by (simp add: os_path_join_def path_join2_def WORKSPACE_DIR_def PRESEED_FILENAME_def)

lemma generate_post_install_script_absent:
  assumes "files w POST_INSTALL_CONFIG = None"
  shows "generate_post_install_script h w =
           (Inl (Exit 1),
            w\<lparr>log := log w @
               [Printed (''[bold red]Error:[/bold red] Post-install config not found at [yellow]'' @
                         SQ @ POST_INSTALL_CONFIG @ SQ @ ''[/yellow].'')]\<rparr>)"
  using assms
  by (simp add: generate_post_install_script_def and_then_def console_print_def emit_def raise_def)

lemma verify_prerequisites_ok:
  "which h ''xorriso'' \<Longrightarrow> verify_prerequisites h w = (Inr (), w)"
  by (simp add: verify_prerequisites_def succeed_def)

lemma extract_iso_ok:
  assumes "run h extract_command (files w) = Completed 0 out err fs"
  shows "extract_iso h w =
           (Inr (), w\<lparr>log := log w @ [Makedirs WORKSPACE_DIR, Ran extract_command], files := fs\<rparr>)"
  using assms
  by (simp add: extract_iso_def and_then_def emit_def subprocess_run_def succeed_def)

lemma create_preseed_config_ok:
  assumes "files w PRESEED_FILENAME = Some preseed"
  shows "create_preseed_config w =
           (Inr (), w\<lparr>files := (files w)(os_path_join WORKSPACE_DIR [PRESEED_FILENAME] \<mapsto> preseed)\<rparr>)"
  using assms by (simp add: create_preseed_config_def write_file_def)

lemma console_print_run:
  "console_print s w = (Inr (), w\<lparr>log := log w @ [Printed s]\<rparr>)"
  by (simp add: console_print_def emit_def)

lemma and_then_ok: "m w = (Inr x, w') \<Longrightarrow> and_then m f w = f x w'"
  by (simp add: and_then_def)

lemma and_then_raised: "m w = (Inl e, w') \<Longrightarrow> and_then m f w = (Inl e, w')"
  by (simp add: and_then_def)

text \<open>
  C4. When the provisioning configuration file is absent, the script generator prints an
  error that names the configuration path and raises \<^verbatim>\<open>Exit(1)\<close>. In \<^verbatim>\<open>create\<close> this
  happens after the extraction and the copy of the answer file and before the bootloader
  patcher: the run ends with that error, the last thing printed is the message, and the
  two boot configurations are as the extraction left them.
\<close>

theorem missing_config_aborts_before_patching:
  assumes "which h ''xorriso''"
    and "run h extract_command (files w) = Completed 0 out err fs"
    and "fs PRESEED_FILENAME = Some preseed"
    and "fs POST_INSTALL_CONFIG = None"
  shows "\<exists>w'. create h w = (Inl (Exit 1), w') \<and>
           log w' = log w @
             [Printed ''[bold cyan]Starting Debian ISO Customization Process[/bold cyan]'',
              Printed ''[bold cyan]Starting Debian ISO Customization Process[/bold cyan]'',
              Printed ''SUCCESS: Prerequisites verified.'',
              Makedirs WORKSPACE_DIR,
              Ran extract_command,
              Printed (''SUCCESS: Source ISO extracted to [yellow]'' @ SQ @ WORKSPACE_DIR @
                       ''/'' @ SQ @ ''[/yellow].''),
              Printed (''SUCCESS: Preseed file [yellow]'' @ SQ @ PRESEED_FILENAME @ SQ @
                       ''[/yellow] copied to workspace.''),
              Printed (''[bold red]Error:[/bold red] Post-install config not found at [yellow]'' @
                       SQ @ POST_INSTALL_CONFIG @ SQ @ ''[/yellow].'')] \<and>
           files w' = fs(os_path_join WORKSPACE_DIR [PRESEED_FILENAME] \<mapsto> preseed) \<and>
           files w' isolinux_cfg_path = fs isolinux_cfg_path \<and>
           files w' grub_cfg_path = fs grub_cfg_path"
proof -
  let ?start = "''[bold cyan]Starting Debian ISO Customization Process[/bold cyan]''"
  let ?dest = "os_path_join WORKSPACE_DIR [PRESEED_FILENAME]"
  define w1 where "w1 = w\<lparr>log := log w @ [Printed ?start]\<rparr>"
  define w2 where "w2 = w1\<lparr>log := log w1 @ [Printed ?start]\<rparr>"
  define w3 where "w3 = w2\<lparr>log := log w2 @ [Printed ''SUCCESS: Prerequisites verified.'']\<rparr>"
  define w4 where "w4 = w3\<lparr>log := log w3 @ [Makedirs WORKSPACE_DIR, Ran extract_command], files := fs\<rparr>"
  define w5 where "w5 = w4\<lparr>log := log w4 @
      [Printed (''SUCCESS: Source ISO extracted to [yellow]'' @ SQ @ WORKSPACE_DIR @
                ''/'' @ SQ @ ''[/yellow].'')]\<rparr>"
  define w6 where "w6 = w5\<lparr>files := (files w5)(?dest \<mapsto> preseed)\<rparr>"
  define w7 where "w7 = w6\<lparr>log := log w6 @
      [Printed (''SUCCESS: Preseed file [yellow]'' @ SQ @ PRESEED_FILENAME @ SQ @
                ''[/yellow] copied to workspace.'')]\<rparr>"
  define w8 where "w8 = w7\<lparr>log := log w7 @
      [Printed (''[bold red]Error:[/bold red] Post-install config not found at [yellow]'' @
                SQ @ POST_INSTALL_CONFIG @ SQ @ ''[/yellow].'')]\<rparr>"
  have s1: "console_print ?start w = (Inr (), w1)"
    by (simp add: console_print_run w1_def)
  have s2: "console_print ?start w1 = (Inr (), w2)"
    by (simp add: console_print_run w2_def)
  have s3: "verify_prerequisites h w2 = (Inr (), w2)"
    using assms(1) by (rule verify_prerequisites_ok)
  have s4: "console_print ''SUCCESS: Prerequisites verified.'' w2 = (Inr (), w3)"
    by (simp add: console_print_run w3_def)
  have "run h extract_command (files w3) = Completed 0 out err fs"
    using assms(2) by (simp add: w3_def w2_def w1_def)
  then have s5: "extract_iso h w3 = (Inr (), w4)"
    unfolding w4_def by (rule extract_iso_ok)
  have s6: "console_print (''SUCCESS: Source ISO extracted to [yellow]'' @ SQ @ WORKSPACE_DIR @
                ''/'' @ SQ @ ''[/yellow].'') w4 = (Inr (), w5)"
    by (simp only: console_print_run w5_def)
  have "files w5 PRESEED_FILENAME = Some preseed"
    using assms(3) by (simp add: w5_def w4_def)
  then have s7: "create_preseed_config w5 = (Inr (), w6)"
    unfolding w6_def by (rule create_preseed_config_ok)
  have s8: "console_print (''SUCCESS: Preseed file [yellow]'' @ SQ @ PRESEED_FILENAME @ SQ @
                ''[/yellow] copied to workspace.'') w6 = (Inr (), w7)"
    by (simp only: console_print_run w7_def)
  have f7: "files w7 = fs(?dest \<mapsto> preseed)"
    by (simp add: w7_def w6_def w5_def w4_def)
  have ne: "?dest \<noteq> POST_INSTALL_CONFIG" "?dest \<noteq> isolinux_cfg_path" "?dest \<noteq> grub_cfg_path"
    by (simp_all add: preseed_dest_eq POST_INSTALL_CONFIG_def isolinux_cfg_path_eq grub_cfg_path_eq)
  have "files w7 POST_INSTALL_CONFIG = None"
    using assms(4) ne(1) by (simp add: f7)
  then have s9: "generate_post_install_script h w7 = (Inl (Exit 1), w8)"
    unfolding w8_def by (rule generate_post_install_script_absent)
  have run: "create h w = (Inl (Exit 1), w8)"
    unfolding create_def
    by (simp only: and_then_def s1 s2 s3 s4 s5 s6 s7 s8 s9 prod.case sum.case)
  have l: "log w8 = log w @
             [Printed ?start, Printed ?start, Printed ''SUCCESS: Prerequisites verified.'',
              Makedirs WORKSPACE_DIR, Ran extract_command,
              Printed (''SUCCESS: Source ISO extracted to [yellow]'' @ SQ @ WORKSPACE_DIR @
                       ''/'' @ SQ @ ''[/yellow].''),
              Printed (''SUCCESS: Preseed file [yellow]'' @ SQ @ PRESEED_FILENAME @ SQ @
                       ''[/yellow] copied to workspace.''),
              Printed (''[bold red]Error:[/bold red] Post-install config not found at [yellow]'' @
                       SQ @ POST_INSTALL_CONFIG @ SQ @ ''[/yellow].'')]"
    by (simp add: w8_def w7_def w6_def w5_def w4_def w3_def w2_def w1_def)
  have f8: "files w8 = fs(?dest \<mapsto> preseed)"
    using f7 by (simp add: w8_def)
  have fi: "files w8 isolinux_cfg_path = fs isolinux_cfg_path"
    using ne(2) by (simp add: f8)
  have fg: "files w8 grub_cfg_path = fs grub_cfg_path"
    using ne(3) by (simp add: f8)
  from run l f8 fi fg show ?thesis by blast
qed

theorem missing_config_aborts_before_patching_witness:
  "which (sample_host 0) ''xorriso'' \<and>
   files sample_world_no_config POST_INSTALL_CONFIG = None \<and>
   (\<exists>w'. create (sample_host 0) sample_world_no_config = (Inl (Exit 1), w') \<and>
      last (log w') =
        Printed (''[bold red]Error:[/bold red] Post-install config not found at [yellow]'' @
                 SQ @ ''post_install_config.json'' @ SQ @ ''[/yellow].'') \<and>
      files w' isolinux_cfg_path = Some (''default vesamenu.c32'' @ NL) \<and>
      files w' grub_cfg_path = Some (''set theme=/boot/grub/theme/1'' @ NL))"
proof -
  let ?fs = "(files sample_world_no_config)
               (isolinux_cfg_path \<mapsto> ''default vesamenu.c32'' @ NL,
                grub_cfg_path \<mapsto> ''set theme=/boot/grub/theme/1'' @ NL)"
  have a: "which (sample_host 0) ''xorriso''"
    by (simp add: sample_host_def)
  have b: "run (sample_host 0) extract_command (files sample_world_no_config) = Completed 0 [] [] ?fs"
    by (simp add: sample_host_def sample_run_def)
  have c: "?fs PRESEED_FILENAME = Some (''d-i debian-installer/locale string en_US'' @ NL)"
    by (simp add: sample_world_no_config_def PRESEED_FILENAME_def isolinux_cfg_path_eq
          grub_cfg_path_eq)
  have d: "?fs POST_INSTALL_CONFIG = None"
    by (simp add: sample_world_no_config_def PRESEED_FILENAME_def POST_INSTALL_CONFIG_def
          isolinux_cfg_path_eq grub_cfg_path_eq)
  have d0: "files sample_world_no_config POST_INSTALL_CONFIG = None"
    by (simp add: sample_world_no_config_def PRESEED_FILENAME_def POST_INSTALL_CONFIG_def)
  have i: "?fs isolinux_cfg_path = Some (''default vesamenu.c32'' @ NL)"
    using cfg_paths_differ by simp
  have g: "?fs grub_cfg_path = Some (''set theme=/boot/grub/theme/1'' @ NL)"
    by simp
  from missing_config_aborts_before_patching [OF a b c d] obtain w' where
    r: "create (sample_host 0) sample_world_no_config = (Inl (Exit 1), w')"
    and l: "log w' = log sample_world_no_config @
             [Printed ''[bold cyan]Starting Debian ISO Customization Process[/bold cyan]'',
              Printed ''[bold cyan]Starting Debian ISO Customization Process[/bold cyan]'',
              Printed ''SUCCESS: Prerequisites verified.'',
              Makedirs WORKSPACE_DIR,
              Ran extract_command,
              Printed (''SUCCESS: Source ISO extracted to [yellow]'' @ SQ @ WORKSPACE_DIR @
                       ''/'' @ SQ @ ''[/yellow].''),
              Printed (''SUCCESS: Preseed file [yellow]'' @ SQ @ PRESEED_FILENAME @ SQ @
                       ''[/yellow] copied to workspace.''),
              Printed (''[bold red]Error:[/bold red] Post-install config not found at [yellow]'' @
                       SQ @ POST_INSTALL_CONFIG @ SQ @ ''[/yellow].'')]"
    and fi: "files w' isolinux_cfg_path = ?fs isolinux_cfg_path"
    and fg: "files w' grub_cfg_path = ?fs grub_cfg_path"
    by blast
  have l': "last (log w') =
        Printed (''[bold red]Error:[/bold red] Post-install config not found at [yellow]'' @
                 SQ @ ''post_install_config.json'' @ SQ @ ''[/yellow].'')"
    by (simp add: l POST_INSTALL_CONFIG_def)
  from a d0 r l' fi fg i g show ?thesis by simp
qed


section \<open>Properties of the media provisioner\<close>

lemma flash_usb_drive_log:
  "\<exists>evs. log (snd (flash_usb_drive h device force w)) = log w @ evs \<and>
     guarded_by (\<lambda>q. q = sure_question) force evs \<and>
     (list_ex refused evs \<longrightarrow> \<not> list_ex is_write evs) \<and>
     (force \<longrightarrow> \<not> list_ex is_confirm evs)"
  by (simp add: flash_usb_drive_def and_then_def console_print_def emit_def
        ignoring_called_process_error_def subprocess_run_def typer_confirm_def succeed_def
        raise_def umount_command_def dd_command_def eject_command_def Let_def
      split: completed.splits list.splits if_splits)

lemma flash_log: "log (snd (flash_usb_drive h device force w)) = log w @ flash_events h device force w"
  using flash_usb_drive_log [of h device force w] by (auto simp: flash_events_def)

lemma flash_events_props:
  "guarded_by (\<lambda>q. q = sure_question) force (flash_events h device force w)"
  "list_ex refused (flash_events h device force w) \<Longrightarrow> \<not> list_ex is_write (flash_events h device force w)"
  "force \<Longrightarrow> \<not> list_ex is_confirm (flash_events h device force w)"
  using flash_usb_drive_log [of h device force w] by (auto simp: flash_events_def)

lemma print_drives_run:
  "print_drives crepr i ds w = (Inr (), w\<lparr>log := log w @ map Printed (drive_listing crepr i ds)\<rparr>)"
  by (induction ds arbitrary: i w)
     (simp_all add: succeed_def and_then_def console_print_def emit_def)

lemma guarded_by_quiet: "\<not> list_ex is_write evs \<Longrightarrow> guarded_by asks ok evs"
  by (induction asks ok evs rule: guarded_by.induct) auto

lemma guarded_by_quiet_suffix:
  "\<not> list_ex is_write post \<Longrightarrow> guarded_by asks ok (evs @ post) = guarded_by asks ok evs"
  by (induction asks ok evs rule: guarded_by.induct) (auto simp: guarded_by_quiet)

lemma guarded_by_mono:
  "guarded_by asks ok evs \<Longrightarrow> ok \<longrightarrow> ok' \<Longrightarrow> \<forall>q. asks q \<longrightarrow> asks' q \<Longrightarrow> guarded_by asks' ok' evs"
  by (induction asks ok evs arbitrary: ok' rule: guarded_by.induct) auto

lemma guarded_by_prints:
  "guarded_by asks ok (map Printed ss @ evs) = guarded_by asks ok evs"
  by (induction ss) auto

lemma and_then_alt:
  "and_then m f w = (case fst (m w) of Inl e \<Rightarrow> (Inl e, snd (m w)) | Inr x \<Rightarrow> f x (snd (m w)))"
  by (simp add: and_then_def split: prod.splits sum.splits)


lemma flash_events_any:
  "guarded_by (\<lambda>q. True) True (flash_events h device force w)"
  using flash_events_props(1) [of force h device w]
  by (rule guarded_by_mono) simp_all

lemma flash_events_unforced:
  "guarded_by (\<lambda>q. q = sure_question) False (flash_events h device False w)"
  using flash_events_props(1) [of False h device w] .

lemma flash_events_unforced_any:
  "guarded_by (\<lambda>q. q = sure_question) True (flash_events h device False w)"
  using flash_events_props(1) [of False h device w]
  by (rule guarded_by_mono) simp_all

lemma flash_events_refused:
  "list_ex refused (flash_events h device force w) \<Longrightarrow>
     list_ex is_write (flash_events h device force w) = False"
  using flash_events_props(2) [of h device force w] by simp

lemma refused_is_confirm: "list_ex refused evs \<Longrightarrow> list_ex is_confirm evs"
  by (induction evs) (auto elim: refused.elims)

lemma flash_events_forced:
  "list_ex refused (flash_events h device True w) = False"
  using flash_events_props(3) [of True h device w] refused_is_confirm by blast

lemma prints_quiet:
  "guarded_by asks ok (map Printed ss)"
  "list_ex refused (map Printed ss) = False"
  "list_ex is_write (map Printed ss) = False"
  by (induction ss) auto

lemma other_questions:
  "(CHR 0x0A # s = sure_question) = False"
  "(CHR ''D'' # s = sure_question) = False"
  by (simp_all add: sure_question_def)

lemmas offer_flash_steps =
  offer_flash_def and_then_alt flash_log print_drives_run console_print_def emit_def
  typer_confirm_def typer_prompt_def succeed_def Let_def other_questions
  guarded_by_prints guarded_by_quiet_suffix flash_events_any flash_events_unforced
  flash_events_unforced_any flash_events_refused flash_events_forced prints_quiet

lemma offer_flash_log:
  "\<exists>evs. log (snd (offer_flash h ds w)) = log w @ evs \<and>
     guarded_by (\<lambda>q. True) False evs \<and>
     (length ds \<noteq> 1 \<longrightarrow> guarded_by (\<lambda>q. q = sure_question) False evs) \<and>
     (list_ex refused evs \<longrightarrow> \<not> list_ex is_write evs)"
proof (cases ds)
  case Nil
  then show ?thesis by (simp add: offer_flash_def succeed_def)
next
  case (Cons d rest)
  show ?thesis
  proof (cases rest)
    case Nil
    with Cons have ds: "ds = [d]" by simp
    show ?thesis
      unfolding ds
      by (cases "answers w"; cases "fst (flash_usb_drive h (drive_name d) True
            (w\<lparr>answers := tl (answers w), log := log w @
               [Printed (NL @ ''[bold cyan]Detected single USB Drive:[/bold cyan] '' @ drive_name d @
                  '' ('' @ py_str (container_repr h) (drive_size d) @ '')''),
                Confirmed (''Do you want to flash the ISO to '' @ drive_name d @ ''?'') True]\<rparr>))")
         (simp_all add: offer_flash_steps)
  next
    case (Cons d' rest')
    with \<open>ds = d # rest\<close> have len: "length ds \<noteq> 1" "ds \<noteq> []" by simp_all
    show ?thesis
      using len
      by (simp add: offer_flash_steps split: list.splits option.splits sum.splits)
  qed
qed

lemma quiet_then_quiet:
  assumes "extends_by quiet_events m" and "\<And>x. extends_by quiet_events (f x)"
  shows "extends_by quiet_events (and_then m f)"
  unfolding extends_by_def
proof
  fix w
  from assms(1) obtain a where a: "log (snd (m w)) = log w @ a" "quiet_events a"
    unfolding extends_by_def by blast
  show "\<exists>evs. log (snd (and_then m f w)) = log w @ evs \<and> quiet_events evs"
  proof (cases "fst (m w)")
    case (Inl e)
    then show ?thesis using a by (auto simp: and_then_alt)
  next
    case (Inr x)
    from assms(2) [of x] obtain b where
      b: "log (snd (f x (snd (m w)))) = log (snd (m w)) @ b" "quiet_events b"
      unfolding extends_by_def by blast
    with a Inr show ?thesis
      by (auto simp: and_then_alt quiet_events_def)
  qed
qed

lemma quiet_guarded: "quiet_events a \<Longrightarrow> guarded_by asks ok (a @ b) = guarded_by asks ok b"
  by (induction asks ok a rule: guarded_by.induct) (auto simp: quiet_events_def)

lemma quiet_is_safe: "quiet_events a \<Longrightarrow> safe_events a"
  using refused_is_confirm by (auto simp: quiet_events_def safe_events_def guarded_by_quiet)

lemma quiet_safe: "quiet_events a \<Longrightarrow> safe_events b \<Longrightarrow> safe_events (a @ b)"
  using refused_is_confirm [of a]
  by (auto simp: safe_events_def quiet_guarded) (auto simp: quiet_events_def)

lemma safe_quiet: "safe_events a \<Longrightarrow> quiet_events b \<Longrightarrow> safe_events (a @ b)"
  using refused_is_confirm [of b]
  by (auto simp: safe_events_def guarded_by_quiet_suffix quiet_events_def)

lemma quiet_then_safe:
  assumes "extends_by quiet_events m" and "\<And>x. extends_by safe_events (f x)"
  shows "extends_by safe_events (and_then m f)"
  unfolding extends_by_def
proof
  fix w
  from assms(1) obtain a where a: "log (snd (m w)) = log w @ a" "quiet_events a"
    unfolding extends_by_def by blast
  show "\<exists>evs. log (snd (and_then m f w)) = log w @ evs \<and> safe_events evs"
  proof (cases "fst (m w)")
    case (Inl e)
    then show ?thesis using a quiet_is_safe by (auto simp: and_then_alt)
  next
    case (Inr x)
    from assms(2) [of x] obtain b where
      b: "log (snd (f x (snd (m w)))) = log (snd (m w)) @ b" "safe_events b"
      unfolding extends_by_def by blast
    with a Inr quiet_safe [of a b] show ?thesis
      by (auto simp: and_then_alt)
  qed
qed

lemma safe_then_quiet:
  assumes "extends_by safe_events m" and "\<And>x. extends_by quiet_events (f x)"
  shows "extends_by safe_events (and_then m f)"
  unfolding extends_by_def
proof
  fix w
  from assms(1) obtain a where a: "log (snd (m w)) = log w @ a" "safe_events a"
    unfolding extends_by_def by blast
  show "\<exists>evs. log (snd (and_then m f w)) = log w @ evs \<and> safe_events evs"
  proof (cases "fst (m w)")
    case (Inl e)
    then show ?thesis using a by (auto simp: and_then_alt)
  next
    case (Inr x)
    from assms(2) [of x] obtain b where
      b: "log (snd (f x (snd (m w)))) = log (snd (m w)) @ b" "quiet_events b"
      unfolding extends_by_def by blast
    with a Inr safe_quiet [of a b] show ?thesis
      by (auto simp: and_then_alt)
  qed
qed

lemma quiet_console_print: "extends_by quiet_events (console_print s)"
  by (simp add: extends_by_def quiet_events_def console_print_def emit_def)

lemma quiet_succeed: "extends_by quiet_events (succeed x)"
  by (simp add: extends_by_def quiet_events_def succeed_def)

lemma quiet_raise: "extends_by quiet_events (raise e)"
  by (simp add: extends_by_def quiet_events_def raise_def)

lemma quiet_lift: "extends_by quiet_events (lift r)"
  by (cases r) (simp_all add: lift_def quiet_raise quiet_succeed)

lemma quiet_write_file: "extends_by quiet_events (write_file p t)"
  by (simp add: extends_by_def quiet_events_def write_file_def)

lemma quiet_read_file: "extends_by quiet_events (read_file h p)"
  by (simp add: extends_by_def quiet_events_def read_file_def split: option.splits)

lemma quiet_subprocess_run_text:
  "take 2 cmd \<noteq> [''sudo'', ''dd''] \<Longrightarrow> extends_by quiet_events (subprocess_run_text h cmd)"
  by (simp add: extends_by_def quiet_events_def subprocess_run_text_def Let_def
      split: completed.splits)

lemma quiet_emit: "\<not> is_write ev \<Longrightarrow> \<not> is_confirm ev \<Longrightarrow> extends_by quiet_events (emit ev)"
  by (simp add: extends_by_def quiet_events_def emit_def)

lemma quiet_subprocess_run:
  "take 2 cmd \<noteq> [''sudo'', ''dd''] \<Longrightarrow> extends_by quiet_events (subprocess_run h cmd)"
  by (simp add: extends_by_def quiet_events_def subprocess_run_def Let_def split: completed.splits)

lemma quiet_json_load: "extends_by quiet_events (json_load h t)"
  by (simp add: json_load_def quiet_lift)

lemma quiet_verify_prerequisites: "extends_by quiet_events (verify_prerequisites h)"
  unfolding verify_prerequisites_def
  by (auto intro!: quiet_then_quiet quiet_console_print quiet_raise quiet_succeed)

lemma quiet_extract_iso: "extends_by quiet_events (extract_iso h)"
  unfolding extract_iso_def
  by (intro quiet_then_quiet quiet_emit quiet_subprocess_run quiet_succeed)
     (simp_all add: extract_command_def)

lemma quiet_create_preseed_config: "extends_by quiet_events create_preseed_config"
  by (simp add: extends_by_def quiet_events_def create_preseed_config_def and_then_def
        console_print_def emit_def raise_def write_file_def Let_def split: option.splits)

lemma quiet_generate_post_install_script:
  "extends_by quiet_events (generate_post_install_script h)"
  by (simp add: extends_by_def quiet_events_def generate_post_install_script_def and_then_def
        console_print_def emit_def raise_def succeed_def write_file_def read_file_def
        json_load_def lift_def
      split: option.splits sum.splits)

lemma quiet_update_bootloader_configs: "extends_by quiet_events (update_bootloader_configs h)"
  unfolding update_bootloader_configs_def
  by (intro quiet_then_quiet quiet_read_file quiet_write_file)

lemma quiet_rebuild_iso: "extends_by quiet_events (rebuild_iso h)"
  unfolding rebuild_iso_def
  by (intro quiet_then_quiet quiet_subprocess_run quiet_succeed)
     (simp_all add: rebuild_command_def)

lemma quiet_find_usb_drives_try: "extends_by quiet_events (find_usb_drives_try h)"
  unfolding find_usb_drives_try_def
  by (intro quiet_then_quiet quiet_subprocess_run_text quiet_json_load quiet_lift)
     (simp_all add: lsblk_command_def)

lemma find_usb_drives_world: "snd (find_usb_drives h w) = snd (find_usb_drives_try h w)"
  by (simp add: find_usb_drives_def split: prod.splits sum.splits)

lemma quiet_find_usb_drives: "extends_by quiet_events (find_usb_drives h)"
  using quiet_find_usb_drives_try [of h]
  by (simp add: extends_by_def find_usb_drives_world)

lemma safe_offer_flash: "extends_by safe_events (offer_flash h ds)"
  using offer_flash_log [of h ds] by (auto simp: extends_by_def safe_events_def)

lemma safe_create: "extends_by safe_events (create h)"
proof -
  have tail: "extends_by safe_events
      (and_then (offer_flash h ds)
         (\<lambda>_. console_print (NL @ ''[bold green]Process complete.[/bold green]'')))" for ds
    by (intro safe_then_quiet safe_offer_flash quiet_console_print)
  show ?thesis
    unfolding create_def
    by (intro tail quiet_then_safe quiet_console_print quiet_verify_prerequisites
          quiet_extract_iso quiet_create_preseed_config quiet_generate_post_install_script
          quiet_update_bootloader_configs quiet_rebuild_iso quiet_find_usb_drives)
qed


section \<open>The confirmation gate and the ejection step\<close>

lemmas run_defs =
  offer_flash_def flash_usb_drive_def and_then_def console_print_def emit_def
  typer_confirm_def typer_prompt_def succeed_def raise_def subprocess_run_def
  ignoring_called_process_error_def Let_def
  sample_host_def sample_run_def sample_repr_def
  umount_command_def dd_command_def eject_command_def extract_command_def rebuild_command_def
  lsblk_command_def CUSTOM_ISO_NAME_def WORKSPACE_DIR_def SOURCE_ISO_PATH_def
  py_int_def py_strip_def py_isspace_def parse_nat_def is_digit_def digit_value_def

lemmas build_defs =
  verify_prerequisites_def extract_iso_def create_preseed_config_def
  generate_post_install_script_def json_load_def lift_def render_script_def join_blank_def
  update_bootloader_configs_def read_file_def write_file_def rebuild_iso_def
  find_usb_drives_def find_usb_drives_try_def subprocess_run_text_def
  sample_decodable_def sample_loads_def sample_lsblk_text_def sample_config_text_def
  sample_lsblk_json_def sample_devices_def sample_config_json_def py_item_def
  os_path_join_def path_join2_def PRESEED_FILENAME_def POST_INSTALL_CONFIG_def
  isolinux_cfg_path_eq grub_cfg_path_eq script_path_def

lemma declined_run:
  "offer_flash (sample_host 0) sample_drives declining_world =
     (Inl (Exit 0),
      \<lparr>files = Map.empty, answers = [], typed = [],
       log = [Printed (NL @ ''[bold cyan]Available USB Drives Detected:[/bold cyan]''),
              Printed ''  [bold]1[/bold]: /dev/sdb (14.9G)'',
              Printed ''  [bold]2[/bold]: /dev/sdc (29.8G)'',
              Confirmed (NL @ ''Do you want to flash the ISO to a USB drive?'') True,
              Prompted ''Enter the number of the drive to flash'' ''1'',
              Printed ''[bold yellow]Preparing to flash custom-debian-13.iso to /dev/sdb...[/bold yellow]'',
              Ran [''sudo'', ''umount'', ''/dev/sdb*''],
              Printed ''[bold red]WARNING: This will destroy all data on /dev/sdb.[/bold red]'',
              Confirmed sure_question False,
              Printed ''[yellow]Operation cancelled.[/yellow]'']\<rparr>)"
  by (simp add: run_defs sample_drives_def declining_world_def)

lemma accepted_run:
  "offer_flash (sample_host 0) sample_drives accepting_world =
     (Inr (),
      \<lparr>files = Map.empty, answers = [], typed = [],
       log = [Printed (NL @ ''[bold cyan]Available USB Drives Detected:[/bold cyan]''),
              Printed ''  [bold]1[/bold]: /dev/sdb (14.9G)'',
              Printed ''  [bold]2[/bold]: /dev/sdc (29.8G)'',
              Confirmed (NL @ ''Do you want to flash the ISO to a USB drive?'') True,
              Prompted ''Enter the number of the drive to flash'' ''1'',
              Printed ''[bold yellow]Preparing to flash custom-debian-13.iso to /dev/sdb...[/bold yellow]'',
              Ran [''sudo'', ''umount'', ''/dev/sdb*''],
              Printed ''[bold red]WARNING: This will destroy all data on /dev/sdb.[/bold red]'',
              Confirmed sure_question True,
              Ran [''sudo'', ''dd'', ''if=custom-debian-13.iso'', ''of=/dev/sdb'', ''bs=4M'', ''status=progress''],
              Printed ''[bold green]Successfully flashed custom-debian-13.iso to /dev/sdb.[/bold green]'',
              Printed ''[bold yellow]Ejecting /dev/sdb...[/bold yellow]'',
              Ran [''sudo'', ''eject'', ''/dev/sdb''],
              Printed ''[bold green]Successfully ejected /dev/sdb.[/bold green]'',
              Printed (NL @ ''[bold green]SUCCESS: ISO successfully flashed to /dev/sdb.[/bold green]'')]\<rparr>)"
  by (simp add: run_defs sample_drives_def accepting_world_def)

text \<open>
  C2. In every run, from any world: the events that one call of the flash adds hold a
  \<^verbatim>\<open>dd\<close> run only after a yes to its own question, unless the caller passed \<^verbatim>\<open>force\<close>; the
  events that the selection block of \<^verbatim>\<open>create\<close> adds hold a \<^verbatim>\<open>dd\<close> run only after some yes,
  and when the drives found are not exactly one (so \<^verbatim>\<open>force\<close> is not passed) only after a
  yes to the flash's own question; the same holds for the whole of \<^verbatim>\<open>create\<close>. In each of
  the three, a run in which a question was answered no holds no \<^verbatim>\<open>dd\<close> run at all.
\<close>

theorem write_needs_confirmation:
  "(\<exists>evs. log (snd (flash_usb_drive h device force w)) = log w @ evs \<and>
      guarded_by (\<lambda>q. q = sure_question) force evs \<and>
      (list_ex refused evs \<longrightarrow> \<not> list_ex is_write evs)) \<and>
   (\<exists>evs. log (snd (offer_flash h usb_drives w)) = log w @ evs \<and>
      guarded_by (\<lambda>q. True) False evs \<and>
      (length usb_drives \<noteq> 1 \<longrightarrow> guarded_by (\<lambda>q. q = sure_question) False evs) \<and>
      (list_ex refused evs \<longrightarrow> \<not> list_ex is_write evs)) \<and>
   (\<exists>evs. log (snd (create h w)) = log w @ evs \<and>
      guarded_by (\<lambda>q. True) False evs \<and>
      (list_ex refused evs \<longrightarrow> \<not> list_ex is_write evs))"
proof (intro conjI)
  show "\<exists>evs. log (snd (flash_usb_drive h device force w)) = log w @ evs \<and>
      guarded_by (\<lambda>q. q = sure_question) force evs \<and>
      (list_ex refused evs \<longrightarrow> \<not> list_ex is_write evs)"
    using flash_usb_drive_log [of h device force w] by blast
  show "\<exists>evs. log (snd (offer_flash h usb_drives w)) = log w @ evs \<and>
      guarded_by (\<lambda>q. True) False evs \<and>
      (length usb_drives \<noteq> 1 \<longrightarrow> guarded_by (\<lambda>q. q = sure_question) False evs) \<and>
      (list_ex refused evs \<longrightarrow> \<not> list_ex is_write evs)"
    by (rule offer_flash_log)
  show "\<exists>evs. log (snd (create h w)) = log w @ evs \<and>
      guarded_by (\<lambda>q. True) False evs \<and>
      (list_ex refused evs \<longrightarrow> \<not> list_ex is_write evs)"
    using safe_create [of h] by (simp add: extends_by_def safe_events_def)
qed

theorem write_needs_confirmation_witness:
  "fst (offer_flash (sample_host 0) sample_drives declining_world) = Inl (Exit 0) \<and>
   list_ex refused (log (snd (offer_flash (sample_host 0) sample_drives declining_world))) \<and>
   \<not> list_ex is_write (log (snd (offer_flash (sample_host 0) sample_drives declining_world))) \<and>
   length sample_drives \<noteq> 1 \<and>
   list_ex is_write (log (snd (offer_flash (sample_host 0) sample_drives accepting_world))) \<and>
   guarded_by (\<lambda>q. q = sure_question) False
     (log (snd (offer_flash (sample_host 0) sample_drives accepting_world)))"
proof -
  have len: "length sample_drives \<noteq> 1"
    by (simp add: sample_drives_def)
  have no: "list_ex refused (log (snd (offer_flash (sample_host 0) sample_drives declining_world)))"
    by (simp add: declined_run)
  have yes: "list_ex is_write (log (snd (offer_flash (sample_host 0) sample_drives accepting_world)))"
    by (simp add: accepted_run)
  from write_needs_confirmation
         [where h = "sample_host 0" and usb_drives = sample_drives and w = declining_world]
  obtain evs where
    "log (snd (offer_flash (sample_host 0) sample_drives declining_world)) =
       log declining_world @ evs"
    and "list_ex refused evs \<longrightarrow> \<not> list_ex is_write evs"
    by blast
  with no have a: "\<not> list_ex is_write
      (log (snd (offer_flash (sample_host 0) sample_drives declining_world)))"
    by (simp add: declining_world_def)
  from write_needs_confirmation
         [where h = "sample_host 0" and usb_drives = sample_drives and w = accepting_world]
  obtain evs' where
    "log (snd (offer_flash (sample_host 0) sample_drives accepting_world)) =
       log accepting_world @ evs'"
    and "length sample_drives \<noteq> 1 \<longrightarrow> guarded_by (\<lambda>q. q = sure_question) False evs'"
    by blast
  with len have b: "guarded_by (\<lambda>q. q = sure_question) False
      (log (snd (offer_flash (sample_host 0) sample_drives accepting_world)))"
    by (simp add: accepting_world_def)
  have r: "fst (offer_flash (sample_host 0) sample_drives declining_world) = Inl (Exit 0)"
    by (simp add: declined_run)
  from r no a len yes b show ?thesis by blast
qed

lemma and_then_assoc:
  "and_then (and_then m f) g = and_then m (\<lambda>x. and_then (f x) g)"
  by (rule ext) (simp add: and_then_def split: prod.splits sum.splits)

lemma create_split: "create h w = and_then (build_and_find h) (\<lambda>usb_drives. finish h usb_drives) w"
  by (simp only: create_def build_and_find_def finish_def and_then_assoc)

lemma create_after_build:
  assumes "build_and_find h w0 = (Inr usb_drives, w)"
  shows "create h w0 = finish h usb_drives w"
  using assms by (simp add: create_split and_then_def)

lemma listing_starts_blank:
  "line \<in> set (drive_listing crepr i ds) \<Longrightarrow> \<exists>r. line = CHR '' '' # r"
  by (induction ds arbitrary: i) auto

lemma listing_no_message:
  "Printed (CHR 0x0A # s) \<notin> set (map Printed (drive_listing crepr i ds))"
  "Printed (CHR 0x0A # s) \<notin> Printed ` set (drive_listing crepr i ds)"
  using listing_starts_blank [of "CHR 0x0A # s" crepr i ds] by auto

lemma listing_no_run:
  "Ran cmd \<notin> set (map Printed (drive_listing crepr i ds))"
  by auto

lemma flash_eject_fails:
  assumes um: "\<And>fs. run h (umount_command device) fs =
                      Completed urc (um_out fs) (um_err fs) (um_after fs)"
    and dd: "\<And>fs. run h (dd_command device) fs =
                      Completed 0 (dd_out fs) (dd_err fs) (dd_after fs)"
    and ej: "\<And>fs. run h (eject_command device) fs =
                      Completed rc (ej_out fs) (ej_err fs) (ej_after fs)"
    and rc: "rc \<noteq> 0"
    and go: "force \<or> (\<exists>rest. answers w = True # rest)"
  shows "flash_usb_drive h device force w =
           (Inl (CalledProcessError (eject_command device) rc),
            w\<lparr>files := ej_after (dd_after (um_after (files w))),
               answers := (if force then answers w else tl (answers w)),
               log := log w @ failed_eject_events device force\<rparr>)"
proof (cases force)
  case True
  then show ?thesis
    using rc
    by (simp add: flash_usb_drive_def and_then_def console_print_def emit_def
          ignoring_called_process_error_def subprocess_run_def succeed_def raise_def
          failed_eject_events_def um dd ej Let_def)
next
  case False
  with go obtain rest where "answers w = True # rest" by blast
  with False show ?thesis
    using rc
    by (simp add: flash_usb_drive_def and_then_def console_print_def emit_def
          ignoring_called_process_error_def subprocess_run_def succeed_def raise_def
          failed_eject_events_def typer_confirm_def um dd ej Let_def)
qed

lemma failed_eject_events_plain:
  "Ran (dd_command device) \<in> set (failed_eject_events device force)"
  "last (failed_eject_events device force) = Ran (eject_command device)"
  "Printed (CHR 0x0A # s) \<notin> set (failed_eject_events device force)"
  by (simp_all add: failed_eject_events_def)

lemma finish_eject_fails:
  assumes um: "\<And>fs. run h (umount_command device) fs =
                      Completed urc (um_out fs) (um_err fs) (um_after fs)"
    and dd: "\<And>fs. run h (dd_command device) fs =
                      Completed 0 (dd_out fs) (dd_err fs) (dd_after fs)"
    and ej: "\<And>fs. run h (eject_command device) fs =
                      Completed rc (ej_out fs) (ej_err fs) (ej_after fs)"
    and rc: "rc \<noteq> 0"
    and reached: "flash_reached usb_drives w device"
  shows "fst (finish h usb_drives w) = Inl (CalledProcessError (eject_command device) rc) \<and>
         (\<exists>evs. log (snd (finish h usb_drives w)) =
                  log w @ evs @ failed_eject_events device (length usb_drives = 1) \<and>
                \<not> list_ex is_write evs \<and>
                Printed (NL @ ''[bold green]SUCCESS: ISO successfully flashed to '' @ device @
                         ''.[/bold green]'') \<notin> set evs \<and>
                Printed (NL @ ''[bold green]Process complete.[/bold green]'') \<notin> set evs)"
proof -
  have forced: "flash_usb_drive h device True w' =
           (Inl (CalledProcessError (eject_command device) rc),
            w'\<lparr>files := ej_after (dd_after (um_after (files w'))),
                answers := answers w',
                log := log w' @ failed_eject_events device True\<rparr>)" for w'
    using flash_eject_fails [OF um dd ej rc, of True w'] by simp
  have asked: "flash_usb_drive h device False w' =
           (Inl (CalledProcessError (eject_command device) rc),
            w'\<lparr>files := ej_after (dd_after (um_after (files w'))),
                answers := tl (answers w'),
                log := log w' @ failed_eject_events device False\<rparr>)"
    if "answers w' = True # rest" for w' rest
    using flash_eject_fails [OF um dd ej rc, of False w'] that by simp
  show ?thesis
  proof (cases usb_drives)
    case Nil
    with reached show ?thesis by (simp add: flash_reached_def)
  next
    case (Cons d ds)
    show ?thesis
    proof (cases ds)
      case Nil
      with Cons have one: "usb_drives = [d]" by simp
      from reached one have name: "drive_name d = device" and "take 1 (answers w) = [True]"
        by (simp_all add: flash_reached_def)
      then obtain rest where ans: "answers w = True # rest"
        by (cases "answers w") auto
      show ?thesis
        unfolding one
        by (rule conjI)
           (simp_all add: finish_def offer_flash_def and_then_def console_print_def emit_def
              typer_confirm_def Let_def ans name forced)
    next
      case (Cons d' ds')
      with \<open>usb_drives = d # ds\<close> have many: "length usb_drives \<noteq> 1" "usb_drives \<noteq> []"
        by simp_all
      note us = \<open>usb_drives = d # ds\<close> [unfolded Cons]
      from reached have "flash_reached (d # d' # ds') w device"
        unfolding us .
      then have two: "take 2 (answers w) = [True, True]"
        and pick: "case typed w of [] \<Rightarrow> False
                   | choice # _ \<Rightarrow>
                       (case py_int choice of None \<Rightarrow> False
                        | Some number \<Rightarrow>
                            0 \<le> number - 1 \<and> number - 1 < int (length (d # d' # ds')) \<and>
                            drive_name ((d # d' # ds') ! nat (number - 1)) = device)"
        by (simp_all add: flash_reached_def)
      from two obtain rest where ans: "answers w = True # True # rest"
        by (cases "answers w"; cases "tl (answers w)") auto
      from pick obtain choice more number where typed: "typed w = choice # more"
        and num: "py_int choice = Some number"
        and lo: "0 \<le> number - 1" and hi': "number - 1 < int (length (d # d' # ds'))"
        and name': "drive_name ((d # d' # ds') ! nat (number - 1)) = device"
        by (cases "typed w"; cases "py_int (hd (typed w))") auto
      note hi = hi' [folded us] and name = name' [folded us]
      show ?thesis
        using many lo hi
        by (intro conjI)
           (simp_all add: finish_def offer_flash_def and_then_def console_print_def emit_def
              typer_confirm_def typer_prompt_def print_drives_run Let_def ans typed num name
              asked [where rest = rest] listing_no_message prints_quiet)
    qed
  qed
qed

text \<open>
  C3, as the code has it. When the unmount tool is present, the write succeeds and the
  ejection exits with a nonzero code \<open>rc\<close>, a flash that is forced or confirmed with a yes
  ends with \<^verbatim>\<open>CalledProcessError\<close> for the eject command, after the events of
  \<open>failed_eject_events\<close>: the write has run and its success message has been printed, the
  eject command is the last thing run, and the ejection's success message is not printed.
  The failure is fatal to the caller too. Whenever the operator's answers lead the
  selection block to that flash, with one drive found or with several, the rest of
  \<^verbatim>\<open>create\<close> ends with the same error, having printed neither the success of the flash nor
  \<^verbatim>\<open>Process complete.\<close>; and so does the whole of \<^verbatim>\<open>create\<close>, when its stages up to the search
  for drives succeed.
\<close>

theorem eject_failure_is_fatal:
  assumes um: "\<And>fs. run h (umount_command device) fs =
                      Completed urc (um_out fs) (um_err fs) (um_after fs)"
    and dd: "\<And>fs. run h (dd_command device) fs =
                      Completed 0 (dd_out fs) (dd_err fs) (dd_after fs)"
    and ej: "\<And>fs. run h (eject_command device) fs =
                      Completed rc (ej_out fs) (ej_err fs) (ej_after fs)"
    and rc: "rc \<noteq> 0"
  shows "(force \<or> take 1 (answers w) = [True] \<longrightarrow>
            fst (flash_usb_drive h device force w) =
              Inl (CalledProcessError (eject_command device) rc) \<and>
            log (snd (flash_usb_drive h device force w)) =
              log w @ failed_eject_events device force) \<and>
         (flash_reached usb_drives w device \<longrightarrow>
            fst (finish h usb_drives w) = Inl (CalledProcessError (eject_command device) rc) \<and>
            (\<exists>evs. log (snd (finish h usb_drives w)) =
                     log w @ evs @ failed_eject_events device (length usb_drives = 1) \<and>
                   \<not> list_ex is_write evs \<and>
                   Printed (NL @ ''[bold green]SUCCESS: ISO successfully flashed to '' @ device @
                            ''.[/bold green]'') \<notin> set evs \<and>
                   Printed (NL @ ''[bold green]Process complete.[/bold green]'') \<notin> set evs)) \<and>
         (build_and_find h start = (Inr usb_drives, w) \<and> flash_reached usb_drives w device \<longrightarrow>
            fst (create h start) = Inl (CalledProcessError (eject_command device) rc) \<and>
            (\<exists>evs. log (snd (create h start)) =
                     log w @ evs @ failed_eject_events device (length usb_drives = 1) \<and>
                   \<not> list_ex is_write evs \<and>
                   Printed (NL @ ''[bold green]SUCCESS: ISO successfully flashed to '' @ device @
                            ''.[/bold green]'') \<notin> set evs \<and>
                   Printed (NL @ ''[bold green]Process complete.[/bold green]'') \<notin> set evs)) \<and>
         Ran (dd_command device) \<in> set (failed_eject_events device force) \<and>
         last (failed_eject_events device force) = Ran (eject_command device) \<and>
         Printed (''[bold green]Successfully flashed '' @ CUSTOM_ISO_NAME @ '' to '' @ device @
                  ''.[/bold green]'') \<in> set (failed_eject_events device force) \<and>
         Printed (''[bold green]Successfully ejected '' @ device @ ''.[/bold green]'')
           \<notin> set (failed_eject_events device force) \<and>
         Printed (NL @ ''[bold green]SUCCESS: ISO successfully flashed to '' @ device @
                  ''.[/bold green]'') \<notin> set (failed_eject_events device force) \<and>
         Printed (NL @ ''[bold green]Process complete.[/bold green]'')
           \<notin> set (failed_eject_events device force)"
proof (intro conjI impI)
  assume "force \<or> take 1 (answers w) = [True]"
  then have go: "force \<or> (\<exists>rest. answers w = True # rest)"
    by (cases "answers w") auto
  from flash_eject_fails [OF um dd ej rc go]
  show "fst (flash_usb_drive h device force w) =
          Inl (CalledProcessError (eject_command device) rc)"
    and "log (snd (flash_usb_drive h device force w)) = log w @ failed_eject_events device force"
    by simp_all
next
  assume "flash_reached usb_drives w device"
  from finish_eject_fails [OF um dd ej rc this]
  show "fst (finish h usb_drives w) = Inl (CalledProcessError (eject_command device) rc)"
    and "\<exists>evs. log (snd (finish h usb_drives w)) =
                 log w @ evs @ failed_eject_events device (length usb_drives = 1) \<and>
               \<not> list_ex is_write evs \<and>
               Printed (NL @ ''[bold green]SUCCESS: ISO successfully flashed to '' @ device @
                        ''.[/bold green]'') \<notin> set evs \<and>
               Printed (NL @ ''[bold green]Process complete.[/bold green]'') \<notin> set evs"
    by blast+
next
  assume a: "build_and_find h start = (Inr usb_drives, w) \<and> flash_reached usb_drives w device"
  then have c: "create h start = finish h usb_drives w"
    by (intro create_after_build) simp
  from a have "flash_reached usb_drives w device" by simp
  from finish_eject_fails [OF um dd ej rc this]
  show "fst (create h start) = Inl (CalledProcessError (eject_command device) rc)"
    and "\<exists>evs. log (snd (create h start)) =
                 log w @ evs @ failed_eject_events device (length usb_drives = 1) \<and>
               \<not> list_ex is_write evs \<and>
               Printed (NL @ ''[bold green]SUCCESS: ISO successfully flashed to '' @ device @
                        ''.[/bold green]'') \<notin> set evs \<and>
               Printed (NL @ ''[bold green]Process complete.[/bold green]'') \<notin> set evs"
    unfolding c by blast+
qed (simp_all add: failed_eject_events_def)

lemma eject_fails_create:
  "create (sample_host 1) sample_world =
     (Inl (CalledProcessError [''sudo'', ''eject'', ''/dev/sdb''] 1),
      snd (create (sample_host 1) sample_world)) \<and>
   log (snd (create (sample_host 1) sample_world)) =
     [Printed ''[bold cyan]Starting Debian ISO Customization Process[/bold cyan]'',
      Printed ''[bold cyan]Starting Debian ISO Customization Process[/bold cyan]'',
      Printed ''SUCCESS: Prerequisites verified.'',
      Makedirs ''iso-extract'',
      Ran extract_command,
      Printed (''SUCCESS: Source ISO extracted to [yellow]'' @ SQ @ ''iso-extract/'' @ SQ @
               ''[/yellow].''),
      Printed (''SUCCESS: Preseed file [yellow]'' @ SQ @ ''preseed.cfg'' @ SQ @
               ''[/yellow] copied to workspace.''),
      Chmod ''iso-extract/post_install_setup.sh'' mode_755,
      Printed ''SUCCESS: Post-install script generated from JSON config.'',
      Printed ''SUCCESS: ISOLINUX and GRUB configurations updated.'',
      Ran rebuild_command,
      Printed (''SUCCESS: Custom ISO [yellow]'' @ SQ @ ''custom-debian-13.iso'' @ SQ @
               ''[/yellow] created successfully.''),
      Ran lsblk_command,
      Printed (NL @ ''[bold cyan]Detected single USB Drive:[/bold cyan] /dev/sdb (14.9G)''),
      Confirmed ''Do you want to flash the ISO to /dev/sdb?'' True,
      Printed ''[bold yellow]Preparing to flash custom-debian-13.iso to /dev/sdb...[/bold yellow]'',
      Ran [''sudo'', ''umount'', ''/dev/sdb*''],
      Printed ''[bold red]WARNING: This will destroy all data on /dev/sdb.[/bold red]'',
      Ran [''sudo'', ''dd'', ''if=custom-debian-13.iso'', ''of=/dev/sdb'', ''bs=4M'', ''status=progress''],
      Printed ''[bold green]Successfully flashed custom-debian-13.iso to /dev/sdb.[/bold green]'',
      Printed ''[bold yellow]Ejecting /dev/sdb...[/bold yellow]'',
      Ran [''sudo'', ''eject'', ''/dev/sdb'']]"
  by (simp add: create_def build_defs run_defs sample_world_def)

lemma sample_build:
  "fst (build_and_find (sample_host 1) sample_world) =
     Inr [\<lparr>drive_name = ''/dev/sdb'', drive_size = JStr ''14.9G''\<rparr>] \<and>
   answers (snd (build_and_find (sample_host 1) sample_world)) = [True, True]"
  by (simp add: build_and_find_def build_defs run_defs sample_world_def)

theorem eject_failure_is_fatal_witness:
  "(1::int) \<noteq> 0 \<and>
   fst (flash_usb_drive (sample_host 1) ''/dev/sdb'' True sample_world) =
     Inl (CalledProcessError [''sudo'', ''eject'', ''/dev/sdb''] 1) \<and>
   flash_reached sample_drives accepting_world ''/dev/sdb'' \<and>
   fst (finish (sample_host 1) sample_drives accepting_world) =
     Inl (CalledProcessError [''sudo'', ''eject'', ''/dev/sdb''] 1) \<and>
   fst (build_and_find (sample_host 1) sample_world) =
     Inr [\<lparr>drive_name = ''/dev/sdb'', drive_size = JStr ''14.9G''\<rparr>] \<and>
   flash_reached [\<lparr>drive_name = ''/dev/sdb'', drive_size = JStr ''14.9G''\<rparr>]
     (snd (build_and_find (sample_host 1) sample_world)) ''/dev/sdb'' \<and>
   fst (create (sample_host 1) sample_world) =
     Inl (CalledProcessError [''sudo'', ''eject'', ''/dev/sdb''] 1)"
proof -
  have um: "\<And>fs. run (sample_host 1) (umount_command ''/dev/sdb'') fs = Completed 32 [] [] fs"
    by (simp add: run_defs)
  have dd: "\<And>fs. run (sample_host 1) (dd_command ''/dev/sdb'') fs = Completed 0 [] [] fs"
    by (simp add: run_defs)
  have ej: "\<And>fs. run (sample_host 1) (eject_command ''/dev/sdb'') fs = Completed 1 [] [] fs"
    by (simp add: run_defs)
  have rc: "(1::int) \<noteq> 0" by simp
  note t = eject_failure_is_fatal
             [where um_out = "\<lambda>fs. []" and um_err = "\<lambda>fs. []" and um_after = "\<lambda>fs. fs"
                and dd_out = "\<lambda>fs. []" and dd_err = "\<lambda>fs. []" and dd_after = "\<lambda>fs. fs"
                and ej_out = "\<lambda>fs. []" and ej_err = "\<lambda>fs. []" and ej_after = "\<lambda>fs. fs",
              OF um dd ej rc]
  have several: "flash_reached sample_drives accepting_world ''/dev/sdb''"
    by (simp add: flash_reached_def sample_drives_def accepting_world_def py_int_def py_strip_def
          py_isspace_def parse_nat_def is_digit_def digit_value_def)
  have built: "build_and_find (sample_host 1) sample_world =
     (Inr [\<lparr>drive_name = ''/dev/sdb'', drive_size = JStr ''14.9G''\<rparr>],
      snd (build_and_find (sample_host 1) sample_world))"
    by (simp only: prod_eq_iff fst_conv snd_conv sample_build simp_thms)
  have single: "flash_reached [\<lparr>drive_name = ''/dev/sdb'', drive_size = JStr ''14.9G''\<rparr>]
     (snd (build_and_find (sample_host 1) sample_world)) ''/dev/sdb''"
    using sample_build by (simp add: flash_reached_def)
  have go: "True \<or> take 1 (answers sample_world) = [True]" by simp
  note a = t [where force = True and w = sample_world, THEN conjunct1, THEN mp, OF go,
              THEN conjunct1]
  note b = t [where w = accepting_world and usb_drives = sample_drives,
              THEN conjunct2, THEN conjunct1, THEN mp, OF several, THEN conjunct1]
  have both: "build_and_find (sample_host 1) sample_world =
       (Inr [\<lparr>drive_name = ''/dev/sdb'', drive_size = JStr ''14.9G''\<rparr>],
        snd (build_and_find (sample_host 1) sample_world)) \<and>
     flash_reached [\<lparr>drive_name = ''/dev/sdb'', drive_size = JStr ''14.9G''\<rparr>]
       (snd (build_and_find (sample_host 1) sample_world)) ''/dev/sdb''"
    using built single by (rule conjI)
  note c = t [where start = sample_world and w = "snd (build_and_find (sample_host 1) sample_world)"
                and usb_drives = "[\<lparr>drive_name = ''/dev/sdb'', drive_size = JStr ''14.9G''\<rparr>]",
              THEN conjunct2, THEN conjunct2, THEN conjunct1, THEN mp, OF both, THEN conjunct1]
  from rc a several b sample_build single c show ?thesis
    by (simp add: eject_command_def)
qed

text \<open>
  That a failed ejection leaves the flash successful and the pipeline running does not
  hold: on the sample machine whose \<^verbatim>\<open>eject\<close> exits with 1, \<^verbatim>\<open>create\<close> ends
  with the error of the eject command, after the write, and prints neither the success of
  the flash nor \<^verbatim>\<open>Process complete.\<close>
\<close>

theorem eject_failure_nonfatal_counterexample:
  "fst (create (sample_host 1) sample_world) =
     Inl (CalledProcessError [''sudo'', ''eject'', ''/dev/sdb''] 1) \<and>
   fst (create (sample_host 1) sample_world) \<noteq> Inr () \<and>
   Ran [''sudo'', ''dd'', ''if=custom-debian-13.iso'', ''of=/dev/sdb'', ''bs=4M'', ''status=progress'']
     \<in> set (log (snd (create (sample_host 1) sample_world))) \<and>
   Printed (NL @ ''[bold green]SUCCESS: ISO successfully flashed to /dev/sdb.[/bold green]'')
     \<notin> set (log (snd (create (sample_host 1) sample_world))) \<and>
   Printed (NL @ ''[bold green]Process complete.[/bold green]'')
     \<notin> set (log (snd (create (sample_host 1) sample_world)))"
proof -
  have r: "fst (create (sample_host 1) sample_world) =
     Inl (CalledProcessError [''sudo'', ''eject'', ''/dev/sdb''] 1)"
    using eject_fails_create by (metis fst_conv)
  have l: "log (snd (create (sample_host 1) sample_world)) =
     [Printed ''[bold cyan]Starting Debian ISO Customization Process[/bold cyan]'',
      Printed ''[bold cyan]Starting Debian ISO Customization Process[/bold cyan]'',
      Printed ''SUCCESS: Prerequisites verified.'',
      Makedirs ''iso-extract'',
      Ran extract_command,
      Printed (''SUCCESS: Source ISO extracted to [yellow]'' @ SQ @ ''iso-extract/'' @ SQ @
               ''[/yellow].''),
      Printed (''SUCCESS: Preseed file [yellow]'' @ SQ @ ''preseed.cfg'' @ SQ @
               ''[/yellow] copied to workspace.''),
      Chmod ''iso-extract/post_install_setup.sh'' mode_755,
      Printed ''SUCCESS: Post-install script generated from JSON config.'',
      Printed ''SUCCESS: ISOLINUX and GRUB configurations updated.'',
      Ran rebuild_command,
      Printed (''SUCCESS: Custom ISO [yellow]'' @ SQ @ ''custom-debian-13.iso'' @ SQ @
               ''[/yellow] created successfully.''),
      Ran lsblk_command,
      Printed (NL @ ''[bold cyan]Detected single USB Drive:[/bold cyan] /dev/sdb (14.9G)''),
      Confirmed ''Do you want to flash the ISO to /dev/sdb?'' True,
      Printed ''[bold yellow]Preparing to flash custom-debian-13.iso to /dev/sdb...[/bold yellow]'',
      Ran [''sudo'', ''umount'', ''/dev/sdb*''],
      Printed ''[bold red]WARNING: This will destroy all data on /dev/sdb.[/bold red]'',
      Ran [''sudo'', ''dd'', ''if=custom-debian-13.iso'', ''of=/dev/sdb'', ''bs=4M'', ''status=progress''],
      Printed ''[bold green]Successfully flashed custom-debian-13.iso to /dev/sdb.[/bold green]'',
      Printed ''[bold yellow]Ejecting /dev/sdb...[/bold yellow]'',
      Ran [''sudo'', ''eject'', ''/dev/sdb'']]"
    using eject_fails_create by blast
  show ?thesis
    unfolding l r by simp
qed


end
